theory Spec2Isabelle
  imports Main "HOL-Library.Sublist" "HOL-Library.Word"
begin

section \<open>The MLC-LLM bridge (src/Classes/MLCBridge.cpp)\<close>

text \<open>
  The bridge owns one JSON FFI engine per wrapper, turns a prompt into a chat-completion
  request, and forwards the text of streamed response fragments to a host callback.
  The engine itself (TVM packed functions) is an external collaborator: its answers are
  the fields of the record \<open>engine\<close> below, and every call made to it is written to a
  trace. Console output (\<open>std::cout\<close>, \<open>std::cerr\<close>) is not modelled.
\<close>

subsection \<open>The operations of \<open>std::string\<close> that the bridge uses\<close>

text \<open>
  \<open>s.find(pat, pos)\<close>: the least index \<open>i \<ge> pos\<close> at which \<open>pat\<close> occurs in \<open>s\<close>,
  \<open>npos\<close> (here \<open>None\<close>) when there is none or when \<open>pos > s.size()\<close>.
  \<open>find_at pat cs i\<close> scans the text \<open>cs\<close> that starts at index \<open>i\<close>.
\<close>

fun find_at :: "string \<Rightarrow> string \<Rightarrow> nat \<Rightarrow> nat option" where
  "find_at pat [] i = (if pat = [] then Some i else None)"
| "find_at pat (c # cs) i = (if prefix pat (c # cs) then Some i else find_at pat cs (Suc i))"

definition find_str :: "string \<Rightarrow> string \<Rightarrow> nat \<Rightarrow> nat option" where
  "find_str s pat pos = (if length s < pos then None else find_at pat (drop pos s) pos)"

text \<open>
  \<open>s.substr(pos, n)\<close>: at most \<open>n\<close> characters from index \<open>pos\<close>. The library raises
  \<open>std::out_of_range\<close> when \<open>pos > s.size()\<close>; the bridge only calls it with a position
  that \<open>find\<close> returned plus the length of the text found (lemma \<open>find_str_bound\<close>), so
  that branch is never taken.
\<close>

definition substr :: "string \<Rightarrow> nat \<Rightarrow> nat \<Rightarrow> string" where
  "substr s pos n = take n (drop pos s)"

text \<open>\<open>s.c_str()\<close> as the callee reads it: the characters before the first NUL.\<close>

definition c_str :: "string \<Rightarrow> string" where
  "c_str s = takeWhile (\<lambda>c. c \<noteq> CHR 0x00) s"

text \<open>
  \<open>std::to_string\<close> of a signed integer: decimal digits, a leading minus sign for a
  negative value.
\<close>

definition digit_char :: "nat \<Rightarrow> char" where
  "digit_char d = ''0123456789'' ! d"

fun digits :: "nat \<Rightarrow> string" where
  "digits n = (if n < 10 then [digit_char n] else digits (n div 10) @ [digit_char (n mod 10)])"

declare digits.simps [simp del]

definition to_string_int :: "int \<Rightarrow> string" where
  "to_string_int i = (if i < 0 then CHR ''-'' # digits (nat (- i)) else digits (nat i))"

subsection \<open>The wrapper, the engine and the world\<close>

text \<open>
  A host callback \<open>void (*)(const char*)\<close> is identified by its address; the null pointer
  is \<open>None\<close>. \<open>token_callback\<close> is a \<open>std::function\<close>: empty (\<open>None\<close>) after default
  construction and after the assignment of a null function pointer.
\<close>

type_synonym sink = nat

record wrapper =
  model_path :: string
  token_callback :: "sink option"
  is_initialized :: bool

text \<open>
  A call into the engine either returns or throws an exception derived from
  \<open>std::exception\<close> (as TVM's errors are). Memory exhaustion (\<open>std::bad_alloc\<close> from a
  string or from \<open>new\<close>) is not modelled.
\<close>

datatype 'a call_result = Returns 'a | Throws

datatype event =
    Registry_Get string
  | Create_Engine
  | Get_Function string
  | Init_Background_Engine int int
  | Reload string
  | Chat_Completion string string
  | Get_Last_Error
  | Exit_Background_Loop
  | Sink_Call sink string

text \<open>
  \<open>GetFunction\<close> gives a callable (\<open>Bound\<close>), gives the null \<open>PackedFunc\<close> when the
  engine has no method of that name (\<open>Unbound\<close>), or throws. The bridge never tests the
  result. Calling a null \<open>PackedFunc\<close> dereferences a null pointer: undefined behaviour.
  The fields \<open>init_background_engine\<close> to \<open>exit_background_loop\<close> are the answers of the
  methods when they are bound. \<open>to_string_float\<close> is \<open>std::to_string(float)\<close> of the
  platform, on the bit pattern of the value.
\<close>

datatype binding = Bound | Unbound

record engine =
  registry :: "string \<Rightarrow> bool"
  create_func :: "unit call_result"
  get_function :: "string \<Rightarrow> binding call_result"
  init_background_engine :: "int \<Rightarrow> int \<Rightarrow> unit call_result"
  reload :: "string \<Rightarrow> unit call_result"
  chat_completion :: "string \<Rightarrow> string \<Rightarrow> bool call_result"
  get_last_error :: "string call_result"
  exit_background_loop :: "unit call_result"
  to_string_float :: "32 word \<Rightarrow> string"

text \<open>
  An opaque handle \<open>void*\<close> is an address or the null pointer (\<open>None\<close>). The heap maps the
  address of every live wrapper to its fields.
\<close>

type_synonym handle = "nat option"

record world =
  heap :: "nat \<rightharpoonup> wrapper"
  next_addr :: nat
  trace :: "event list"

text \<open>Using a non-null handle that is not a live wrapper is undefined behaviour.\<close>

datatype 'a outcome = Undefined_Behaviour | Done 'a

subsection \<open>\<open>MLCEngineWrapper::processStreamResponse\<close>\<close>

definition content_key :: string where
  \<open>content_key = ''"content":"''\<close>

definition quote :: string where
  \<open>quote = ''"''\<close>

text \<open>The result is the list of calls made to the host callback, in order.\<close>

definition processStreamResponse :: "wrapper \<Rightarrow> string \<Rightarrow> (sink \<times> string) list" where
  "processStreamResponse w response_json =
     (case token_callback w of
        None \<Rightarrow> []
      | Some cb \<Rightarrow>
          (case find_str response_json content_key 0 of
             None \<Rightarrow> []
           | Some content_pos \<Rightarrow>
               (let start = content_pos + 11 in
                case find_str response_json quote start of
                  None \<Rightarrow> []
                | Some end_pos \<Rightarrow>
                    (let content = substr response_json start (end_pos - start) in
                     if content \<noteq> [] then [(cb, c_str content)] else []))))"

subsection \<open>\<open>MLCEngineWrapper::generate\<close>\<close>

definition request_json :: "string \<Rightarrow> string \<Rightarrow> string \<Rightarrow> string" where
  \<open>request_json prompt max_tokens_text temperature_text =
     ''{\<newline>            "messages": [\<newline>                {\<newline>                    "role": "user", \<newline>                    "content": "''
     @ prompt
     @ ''"\<newline>                }\<newline>            ],\<newline>            "model": "TinyLlama-1.1B-MLC",\<newline>            "max_tokens": ''
     @ max_tokens_text
     @ '',\<newline>            "temperature": ''
     @ temperature_text
     @ '',\<newline>            "stream": true\<newline>        }''\<close>

text \<open>\<open>now_ms\<close> is the reading of the system clock, in milliseconds since the epoch.\<close>

definition request_id :: "64 word \<Rightarrow> string" where
  "request_id now_ms = ''req_'' @ to_string_int (sint now_ms)"

text \<open>
  The result is the return code, the wrapper after the call and the calls made to the
  engine. Both a \<open>false\<close> from \<open>chat_completion\<close> and an exception end in \<open>-2\<close>; an
  exception of \<open>get_last_error\<close> is caught by the same handler. The function is the
  method on a wrapper whose \<open>chat_completion_\<close> and \<open>get_last_error_\<close> are callable; a
  wrapper that holds a null \<open>PackedFunc\<close> there is outside it.
\<close>

definition generate ::
  "engine \<Rightarrow> wrapper \<Rightarrow> string \<Rightarrow> 32 word \<Rightarrow> 32 word \<Rightarrow> sink option \<Rightarrow> 64 word
     \<Rightarrow> int \<times> wrapper \<times> event list" where
  "generate e w prompt max_tokens temperature callback now_ms =
     (if \<not> is_initialized w then (- 1, w, [])
      else
        (let w' = w\<lparr>token_callback := callback\<rparr>;
             req = request_json prompt (to_string_int (sint max_tokens))
                     (to_string_float e temperature);
             rid = request_id now_ms
         in case chat_completion e req rid of
              Throws \<Rightarrow> (- 2, w', [Chat_Completion req rid])
            | Returns success \<Rightarrow>
                if \<not> success then
                  (case get_last_error e of
                     Throws \<Rightarrow> (- 2, w', [Chat_Completion req rid, Get_Last_Error])
                   | Returns error \<Rightarrow> (- 2, w', [Chat_Completion req rid, Get_Last_Error]))
                else (0, w', [Chat_Completion req rid])))"

subsection \<open>Construction and destruction of the wrapper\<close>

definition factory_key :: string where
  "factory_key = ''mlc.json_ffi.CreateJSONFFIEngine''"

definition engine_config :: "string \<Rightarrow> string" where
  \<open>engine_config path =
     ''{\<newline>                "model": "''
     @ path
     @ ''",\<newline>                "model_lib": "TinyLlama-1.1B-MLC",\<newline>                "device": "metal:0",\<newline>                "max_num_sequence": 1,\<newline>                "max_total_sequence_length": 2048,\<newline>                "prefill_chunk_size": 2048,\<newline>                "max_history_size": 1\<newline>            }''\<close>

text \<open>
  How a sequence of calls ends: every call returned, one threw (the rest is skipped), or
  a null \<open>PackedFunc\<close> was called.
\<close>

datatype completion = Completed | Thrown | Null_Called

text \<open>A call that returns or throws, as the factory and \<open>GetFunction\<close> are.\<close>

definition plain_step :: "'a call_result \<Rightarrow> completion" where
  "plain_step r = (case r of Throws \<Rightarrow> Thrown | Returns _ \<Rightarrow> Completed)"

text \<open>
  A call through a stored \<open>PackedFunc\<close>: \<open>b\<close> is what \<open>GetFunction\<close> gave for it, \<open>r\<close> the
  answer of the method when it is bound.
\<close>

definition call_step :: "binding call_result \<Rightarrow> 'a call_result \<Rightarrow> completion" where
  "call_step b r = (case b of Returns Unbound \<Rightarrow> Null_Called | _ \<Rightarrow> plain_step r)"

text \<open>
  The calls of the constructor's \<open>try\<close> block after the factory lookup, in the order of
  the source, each with the way it ends. The six \<open>GetFunction\<close> results are stored
  untested; \<open>init_background_engine_\<close> and \<open>reload_\<close> are then called through what was
  stored.
\<close>

definition constructor_steps :: "engine \<Rightarrow> string \<Rightarrow> (event \<times> completion) list" where
  "constructor_steps e path =
     [(Create_Engine, plain_step (create_func e)),
      (Get_Function ''init_background_engine'',
         plain_step (get_function e ''init_background_engine'')),
      (Get_Function ''reload'', plain_step (get_function e ''reload'')),
      (Get_Function ''chat_completion'', plain_step (get_function e ''chat_completion'')),
      (Get_Function ''run_background_loop'',
         plain_step (get_function e ''run_background_loop'')),
      (Get_Function ''run_background_stream_back_loop'',
         plain_step (get_function e ''run_background_stream_back_loop'')),
      (Get_Function ''get_last_error'', plain_step (get_function e ''get_last_error'')),
      (Init_Background_Engine 8 0,
         call_step (get_function e ''init_background_engine'') (init_background_engine e 8 0)),
      (Reload (engine_config path),
         call_step (get_function e ''reload'') (reload e (engine_config path)))]"

text \<open>
  Runs the calls in order and stops at the first that throws or goes through a null
  \<open>PackedFunc\<close> (that call never reaches the engine).
\<close>

fun run_steps :: "(event \<times> completion) list \<Rightarrow> completion \<times> event list" where
  "run_steps [] = (Completed, [])"
| "run_steps ((ev, c) # rest) =
     (case c of
        Thrown \<Rightarrow> (Thrown, [ev])
      | Null_Called \<Rightarrow> (Null_Called, [])
      | Completed \<Rightarrow> (case run_steps rest of (end, evs) \<Rightarrow> (end, ev # evs)))"

text \<open>
  The constructor: \<open>is_initialized\<close> starts \<open>false\<close>, \<open>token_callback\<close> starts empty; a
  missing factory throws, and the handler of the \<open>try\<close> block leaves \<open>is_initialized\<close>
  \<open>false\<close>. The result is the wrapper, the calls made to the engine and the way the body
  ended; after \<open>Null_Called\<close> the behaviour is undefined, and the wrapper is the object as
  it was at that call.
\<close>

definition MLCEngineWrapper :: "engine \<Rightarrow> string \<Rightarrow> wrapper \<times> event list \<times> completion" where
  "MLCEngineWrapper e path =
     (let w = \<lparr>model_path = path, token_callback = None, is_initialized = False\<rparr>
      in if \<not> registry e factory_key then (w, [Registry_Get factory_key], Thrown)
         else (case run_steps (constructor_steps e path) of
                 (end, evs) \<Rightarrow>
                   (w\<lparr>is_initialized := (end = Completed)\<rparr>,
                    Registry_Get factory_key # evs, end)))"

text \<open>
  The destructor: exceptions of the clean-up are ignored; a null \<open>exit_background_loop\<close>
  is called all the same.
\<close>

definition destroy_wrapper :: "engine \<Rightarrow> wrapper \<Rightarrow> event list outcome" where
  "destroy_wrapper e w =
     (if is_initialized w then
        (case get_function e ''exit_background_loop'' of
           Throws \<Rightarrow> Done [Get_Function ''exit_background_loop'']
         | Returns Unbound \<Rightarrow> Undefined_Behaviour
         | Returns Bound \<Rightarrow>
             (case exit_background_loop e of
                Throws \<Rightarrow> Done [Get_Function ''exit_background_loop'', Exit_Background_Loop]
              | Returns _ \<Rightarrow> Done [Get_Function ''exit_background_loop'', Exit_Background_Loop]))
      else Done [])"

subsection \<open>The C interface\<close>

text \<open>The argument \<open>model_path\<close> is a NUL-terminated string (a null pointer is outside the contract).\<close>

definition mlc_llm_create_engine ::
  "engine \<Rightarrow> string \<Rightarrow> world \<Rightarrow> (handle \<times> world) outcome" where
  "mlc_llm_create_engine e path s =
     (case MLCEngineWrapper e path of
        (w, evs, end) \<Rightarrow>
          if end = Null_Called then Undefined_Behaviour
          else if \<not> is_initialized w then
            (case destroy_wrapper e w of
               Undefined_Behaviour \<Rightarrow> Undefined_Behaviour
             | Done closing \<Rightarrow> Done (None, s\<lparr>trace := trace s @ evs @ closing\<rparr>))
          else Done (Some (next_addr s),
                     s\<lparr>heap := (heap s)(next_addr s \<mapsto> w),
                       next_addr := Suc (next_addr s),
                       trace := trace s @ evs\<rparr>))"

definition mlc_llm_generate ::
  "engine \<Rightarrow> handle \<Rightarrow> string option \<Rightarrow> 32 word \<Rightarrow> 32 word \<Rightarrow> sink option \<Rightarrow> 64 word
     \<Rightarrow> world \<Rightarrow> (int \<times> world) outcome" where
  "mlc_llm_generate e h prompt max_tokens temperature callback now_ms s =
     (case h of
        None \<Rightarrow> Done (- 1, s)
      | Some a \<Rightarrow>
          (case prompt of
             None \<Rightarrow> Done (- 1, s)
           | Some p \<Rightarrow>
               (case heap s a of
                  None \<Rightarrow> Undefined_Behaviour
                | Some w \<Rightarrow>
                    (case generate e w p max_tokens temperature callback now_ms of
                       (rc, w', evs) \<Rightarrow>
                         Done (rc, s\<lparr>heap := (heap s)(a \<mapsto> w'),
                                     trace := trace s @ evs\<rparr>)))))"

definition mlc_llm_destroy_engine :: "engine \<Rightarrow> handle \<Rightarrow> world \<Rightarrow> world outcome" where
  "mlc_llm_destroy_engine e h s =
     (case h of
        None \<Rightarrow> Done s
      | Some a \<Rightarrow>
          (case heap s a of
             None \<Rightarrow> Undefined_Behaviour
           | Some w \<Rightarrow>
               (case destroy_wrapper e w of
                  Undefined_Behaviour \<Rightarrow> Undefined_Behaviour
                | Done closing \<Rightarrow>
                    Done (s\<lparr>heap := (heap s)(a := None),
                            trace := trace s @ closing\<rparr>))))"

text \<open>
  The stream callback registered with \<open>init_background_engine\<close>: the engine calls it with
  one fragment, and the wrapper at address \<open>a\<close> forwards what it extracts.
\<close>

definition stream_callback :: "nat \<Rightarrow> string \<Rightarrow> world \<Rightarrow> world outcome" where
  "stream_callback a response_json s =
     (case heap s a of
        None \<Rightarrow> Undefined_Behaviour
      | Some w \<Rightarrow>
          Done (s\<lparr>trace := trace s
                   @ map (\<lambda>(cb, text). Sink_Call cb text) (processStreamResponse w response_json)\<rparr>))"

section \<open>The specification's side\<close>

subsection \<open>A successful construction\<close>

text \<open>
  The specification's full success: the factory is found, the engine is created, every
  one of the six methods is bound, and \<open>init_background_engine\<close> and \<open>reload\<close> return.
\<close>

definition construction_succeeds :: "engine \<Rightarrow> string \<Rightarrow> bool" where
  "construction_succeeds e path \<longleftrightarrow>
     registry e factory_key
     \<and> create_func e \<noteq> Throws
     \<and> get_function e ''init_background_engine'' = Returns Bound
     \<and> get_function e ''reload'' = Returns Bound
     \<and> get_function e ''chat_completion'' = Returns Bound
     \<and> get_function e ''run_background_loop'' = Returns Bound
     \<and> get_function e ''run_background_stream_back_loop'' = Returns Bound
     \<and> get_function e ''get_last_error'' = Returns Bound
     \<and> init_background_engine e 8 0 \<noteq> Throws
     \<and> reload e (engine_config path) \<noteq> Throws"

text \<open>
  The amended success: the factory is found, the engine is created, none of the six
  lookups throws, and \<open>init_background_engine\<close> and \<open>reload\<close> are bound and return.
  Whether the other four methods are bound is not part of it.
\<close>

definition constructor_completes :: "engine \<Rightarrow> string \<Rightarrow> bool" where
  "constructor_completes e path \<longleftrightarrow>
     registry e factory_key
     \<and> create_func e \<noteq> Throws
     \<and> get_function e ''init_background_engine'' = Returns Bound
     \<and> get_function e ''reload'' = Returns Bound
     \<and> get_function e ''chat_completion'' \<noteq> Throws
     \<and> get_function e ''run_background_loop'' \<noteq> Throws
     \<and> get_function e ''run_background_stream_back_loop'' \<noteq> Throws
     \<and> get_function e ''get_last_error'' \<noteq> Throws
     \<and> init_background_engine e 8 0 \<noteq> Throws
     \<and> reload e (engine_config path) \<noteq> Throws"

text \<open>
  The construction reaches a call through a null \<open>PackedFunc\<close>: nothing threw before,
  and \<open>init_background_engine\<close> is unbound, or it returned and \<open>reload\<close> is unbound.
\<close>

definition constructor_calls_null :: "engine \<Rightarrow> string \<Rightarrow> bool" where
  "constructor_calls_null e path \<longleftrightarrow>
     registry e factory_key
     \<and> create_func e \<noteq> Throws
     \<and> get_function e ''init_background_engine'' \<noteq> Throws
     \<and> get_function e ''reload'' \<noteq> Throws
     \<and> get_function e ''chat_completion'' \<noteq> Throws
     \<and> get_function e ''run_background_loop'' \<noteq> Throws
     \<and> get_function e ''run_background_stream_back_loop'' \<noteq> Throws
     \<and> get_function e ''get_last_error'' \<noteq> Throws
     \<and> (get_function e ''init_background_engine'' = Returns Unbound
        \<or> init_background_engine e 8 0 \<noteq> Throws
          \<and> get_function e ''reload'' = Returns Unbound)"

subsection \<open>The content deltas of a fragment\<close>

text \<open>
  The specification asks the extractor to locate \<^emph>\<open>each\<close> occurrence of the key
  \<open>content\<close> paired with a string value and to yield the strings in encounter order.
  \<open>spec_content_deltas\<close> does that on the text of the fragment: every occurrence of
  \<open>"content":"\<close>, each with the text up to the next double quote. The search resumes
  after that quote, so the recursion ends.
\<close>

lemma find_at_bound: "find_at pat cs i = Some j \<Longrightarrow> j + length pat \<le> i + length cs"
proof (induction cs arbitrary: i)
  case Nil
  then show ?case by (simp split: if_splits)
next
  case (Cons c cs)
  show ?case
  proof (cases "prefix pat (c # cs)")
    case True
    with Cons.prems have "j = i" by simp
    moreover from True have "length pat \<le> length (c # cs)" by (rule prefix_length_le)
    ultimately show ?thesis by simp
  next
    case False
    with Cons.prems have "find_at pat cs (Suc i) = Some j" by simp
    from Cons.IH [OF this] show ?thesis by simp
  qed
qed

lemma find_str_bound: "find_str s pat pos = Some j \<Longrightarrow> j + length pat \<le> length s"
  by (auto simp: find_str_def split: if_splits dest: find_at_bound)

lemma find_at_ge: "find_at pat cs i = Some j \<Longrightarrow> i \<le> j"
  by (induction cs arbitrary: i) (auto split: if_splits dest: Suc_leD)

lemma find_str_ge: "find_str s pat pos = Some j \<Longrightarrow> pos \<le> j"
  by (auto simp: find_str_def split: if_splits dest: find_at_ge)

function spec_content_deltas_from :: "string \<Rightarrow> nat \<Rightarrow> string list" where
  "spec_content_deltas_from s pos =
     (case find_str s content_key pos of
        None \<Rightarrow> []
      | Some p \<Rightarrow>
          (case find_str s quote (p + 11) of
             None \<Rightarrow> []
           | Some e \<Rightarrow> substr s (p + 11) (e - (p + 11)) # spec_content_deltas_from s (Suc e)))"
  by pat_completeness auto

termination
proof (relation "measure (\<lambda>(s, pos). Suc (length s) - pos)")
  show "wf (measure (\<lambda>(s, pos). Suc (length s) - pos))" by simp
next
  fix s :: string and pos p e :: nat
  assume a: "find_str s content_key pos = Some p" and b: "find_str s quote (p + 11) = Some e"
  from find_str_ge [OF a] find_str_ge [OF b] have "pos < Suc e" by simp
  moreover from find_str_bound [OF b] have "Suc e \<le> length s" by (simp add: quote_def)
  ultimately show "((s, Suc e), (s, pos)) \<in> measure (\<lambda>(s, pos). Suc (length s) - pos)"
    by simp
qed

declare spec_content_deltas_from.simps [simp del]

definition spec_content_deltas :: "string \<Rightarrow> string list" where
  "spec_content_deltas s = spec_content_deltas_from s 0"

subsection \<open>JSON strings: escaping and unescaping\<close>

text \<open>
  A character of a JSON string must be escaped when it is the double quote, the backslash
  or a control character (below \<open>0x20\<close>). \<open>json_escape\<close> is the encoding an engine gives a
  delta; \<open>json_string\<close> reads a string after its opening quote up to the closing one and
  decodes the standard escapes (quote, backslash, solidus, b, f, n, r, t and u with four
  hexadecimal digits, to UTF-8, surrogate pairs combined); \<open>json_unescape\<close> is \<open>json_string\<close> on the
  text between the quotes.
\<close>

definition is_control :: "char \<Rightarrow> bool" where
  "is_control c \<longleftrightarrow> (of_char c :: nat) < 32"

definition needs_escape :: "char \<Rightarrow> bool" where
  "needs_escape c \<longleftrightarrow> c = CHR 0x22 \<or> c = CHR 0x5C \<or> is_control c"

definition hex_digits :: string where
  "hex_digits = ''0123456789abcdef''"

definition json_escape_char :: "char \<Rightarrow> string" where
  "json_escape_char c =
     (if c = CHR 0x22 then [CHR 0x5C, CHR 0x22]
      else if c = CHR 0x5C then [CHR 0x5C, CHR 0x5C]
      else if c = CHR 0x08 then [CHR 0x5C, CHR ''b'']
      else if c = CHR 0x0C then [CHR 0x5C, CHR ''f'']
      else if c = CHR 0x0A then [CHR 0x5C, CHR ''n'']
      else if c = CHR 0x0D then [CHR 0x5C, CHR ''r'']
      else if c = CHR 0x09 then [CHR 0x5C, CHR ''t'']
      else if is_control c then
        [CHR 0x5C, CHR ''u'', CHR ''0'', CHR ''0'',
         hex_digits ! (of_char c div 16), hex_digits ! (of_char c mod 16)]
      else [c])"

definition json_escape :: "string \<Rightarrow> string" where
  "json_escape s = concat (map json_escape_char s)"

definition hex_value :: "char \<Rightarrow> nat option" where
  "hex_value c =
     map_of (zip ''0123456789abcdefABCDEF''
               [0, 1, 2, 3, 4, 5, 6, 7, 8, 9, 10, 11, 12, 13, 14, 15, 10, 11, 12, 13, 14, 15]) c"

definition hex4 :: "string \<Rightarrow> nat option" where
  "hex4 s =
     (case map hex_value (take 4 s) of
        [Some a, Some b, Some c, Some d] \<Rightarrow> Some (((a * 16 + b) * 16 + c) * 16 + d)
      | _ \<Rightarrow> None)"

definition utf8_encode :: "nat \<Rightarrow> string" where
  "utf8_encode cp =
     (if cp < 0x80 then [char_of cp]
      else if cp < 0x800 then [char_of (0xC0 + cp div 0x40), char_of (0x80 + cp mod 0x40)]
      else if cp < 0x10000 then
        [char_of (0xE0 + cp div 0x1000), char_of (0x80 + cp div 0x40 mod 0x40),
         char_of (0x80 + cp mod 0x40)]
      else
        [char_of (0xF0 + cp div 0x40000), char_of (0x80 + cp div 0x1000 mod 0x40),
         char_of (0x80 + cp div 0x40 mod 0x40), char_of (0x80 + cp mod 0x40)])"

definition unicode_escape :: "string \<Rightarrow> (string \<times> string) option" where
  "unicode_escape s =
     (case hex4 s of
        None \<Rightarrow> None
      | Some hi \<Rightarrow>
          if 0xD800 \<le> hi \<and> hi < 0xDC00 then
            (if take 2 (drop 4 s) = [CHR 0x5C, CHR ''u''] then
               (case hex4 (drop 6 s) of
                  None \<Rightarrow> None
                | Some lo \<Rightarrow>
                    if 0xDC00 \<le> lo \<and> lo < 0xE000
                    then Some (utf8_encode (0x10000 + (hi - 0xD800) * 0x400 + (lo - 0xDC00)),
                               drop 10 s)
                    else None)
             else None)
          else if 0xDC00 \<le> hi \<and> hi < 0xE000 then None
          else Some (utf8_encode hi, drop 4 s))"

definition simple_escape :: "char \<Rightarrow> char option" where
  "simple_escape e =
     map_of [(CHR 0x22, CHR 0x22), (CHR 0x5C, CHR 0x5C), (CHR ''/'', CHR ''/''),
             (CHR ''b'', CHR 0x08), (CHR ''f'', CHR 0x0C), (CHR ''n'', CHR 0x0A),
             (CHR ''r'', CHR 0x0D), (CHR ''t'', CHR 0x09)] e"

lemma unicode_escape_length: "unicode_escape s = Some (bytes, r) \<Longrightarrow> length r \<le> length s"
  by (auto simp: unicode_escape_def split: option.splits if_splits)

function json_string :: "string \<Rightarrow> (string \<times> string) option" where
  "json_string [] = None"
| "json_string (c # cs) =
     (if c = CHR 0x22 then Some ([], cs)
      else if c = CHR 0x5C then
        (case cs of
           [] \<Rightarrow> None
         | e # rest \<Rightarrow>
             if e = CHR ''u'' then
               (case unicode_escape rest of
                  None \<Rightarrow> None
                | Some (bytes, rest') \<Rightarrow>
                    map_option (\<lambda>(d, r). (bytes @ d, r)) (json_string rest'))
             else
               (case simple_escape e of
                  None \<Rightarrow> None
                | Some b \<Rightarrow> map_option (\<lambda>(d, r). (b # d, r)) (json_string rest)))
      else if is_control c then None
      else map_option (\<lambda>(d, r). (c # d, r)) (json_string cs))"
  by pat_completeness auto

termination
  by (relation "measure length") (auto dest: unicode_escape_length)

definition json_unescape :: "string \<Rightarrow> string option" where
  "json_unescape body =
     (case json_string (body @ [CHR 0x22]) of
        Some (d, []) \<Rightarrow> Some d
      | _ \<Rightarrow> None)"

text \<open>
  A fragment that carries the delta \<open>d\<close>, in the shape of the specification's scenarios.
\<close>

definition fragment_containing :: "string \<Rightarrow> string" where
  \<open>fragment_containing d = ''{"choices":[{"delta":{"content":"'' @ json_escape d @ ''"}}]}''\<close>

subsection \<open>JSON documents\<close>

text \<open>
  A decoder for the JSON grammar (RFC 8259), to say what the request built by \<open>generate\<close>
  decodes to. A number keeps its text. The fuel of \<open>json_value\<close> is spent one unit per
  value, element and member, and more fuel never changes a result (lemma
  \<open>json_fuel_mono\<close>); \<open>json_decode\<close> gives it the length of the document, and accepts
  only a document that is one value with nothing but white space after it.
\<close>

datatype json =
    JNull
  | JBool bool
  | JNumber string
  | JString string
  | JArray "json list"
  | JObject "(string \<times> json) list"

definition is_ws :: "char \<Rightarrow> bool" where
  "is_ws c \<longleftrightarrow> c = CHR '' '' \<or> c = CHR 0x09 \<or> c = CHR 0x0A \<or> c = CHR 0x0D"

definition skip_ws :: "string \<Rightarrow> string" where
  "skip_ws s = dropWhile is_ws s"

definition is_digit :: "char \<Rightarrow> bool" where
  "is_digit c \<longleftrightarrow> c \<in> set ''0123456789''"

definition number_char :: "char \<Rightarrow> bool" where
  "number_char c \<longleftrightarrow> is_digit c \<or> c \<in> set ''+-.eE''"

definition is_json_int :: "string \<Rightarrow> bool" where
  "is_json_int s \<longleftrightarrow> s \<noteq> [] \<and> list_all is_digit s \<and> (hd s = CHR ''0'' \<longrightarrow> length s = 1)"

definition is_json_frac :: "string \<Rightarrow> bool" where
  "is_json_frac s \<longleftrightarrow>
     s = [] \<or> (hd s = CHR ''.'' \<and> tl s \<noteq> [] \<and> list_all is_digit (tl s))"

definition is_json_exp :: "string \<Rightarrow> bool" where
  "is_json_exp s \<longleftrightarrow>
     s = []
     \<or> ((hd s = CHR ''e'' \<or> hd s = CHR ''E'')
        \<and> (let d = (if tl s \<noteq> [] \<and> (hd (tl s) = CHR ''+'' \<or> hd (tl s) = CHR ''-'')
                     then tl (tl s) else tl s)
           in d \<noteq> [] \<and> list_all is_digit d))"

definition is_json_number :: "string \<Rightarrow> bool" where
  "is_json_number s \<longleftrightarrow>
     (let u = (if s \<noteq> [] \<and> hd s = CHR ''-'' then tl s else s);
          ip = takeWhile is_digit u;
          r = dropWhile is_digit u;
          fp = (if r \<noteq> [] \<and> hd r = CHR ''.'' then CHR ''.'' # takeWhile is_digit (tl r) else []);
          ex = drop (length fp) r
      in is_json_int ip \<and> is_json_frac fp \<and> is_json_exp ex)"

definition json_number :: "string \<Rightarrow> (json \<times> string) option" where
  "json_number s =
     (let lexeme = takeWhile number_char s
      in if is_json_number lexeme then Some (JNumber lexeme, dropWhile number_char s) else None)"

definition starts_number :: "string \<Rightarrow> bool" where
  "starts_number s \<longleftrightarrow> s \<noteq> [] \<and> (hd s = CHR ''-'' \<or> is_digit (hd s))"

fun json_value :: "nat \<Rightarrow> string \<Rightarrow> (json \<times> string) option"
  and json_elements :: "nat \<Rightarrow> string \<Rightarrow> (json list \<times> string) option"
  and json_members :: "nat \<Rightarrow> string \<Rightarrow> ((string \<times> json) list \<times> string) option" where
  "json_value 0 s = None"
| "json_value (Suc n) s =
     (let t = skip_ws s in
      if starts_number t then json_number t
      else if prefix ''true'' t then Some (JBool True, drop 4 t)
      else if prefix ''false'' t then Some (JBool False, drop 5 t)
      else if prefix ''null'' t then Some (JNull, drop 4 t)
      else
        (case t of
           [] \<Rightarrow> None
         | c # cs \<Rightarrow>
             if c = CHR 0x22 then map_option (\<lambda>(d, r). (JString d, r)) (json_string cs)
             else if c = CHR ''['' then
               (if prefix '']'' (skip_ws cs) then Some (JArray [], tl (skip_ws cs))
                else map_option (\<lambda>(vs, r). (JArray vs, r)) (json_elements n cs))
             else if c = CHR ''{'' then
               (if prefix ''}'' (skip_ws cs) then Some (JObject [], tl (skip_ws cs))
                else map_option (\<lambda>(ms, r). (JObject ms, r)) (json_members n cs))
             else None))"
| "json_elements 0 s = None"
| "json_elements (Suc n) s =
     (case json_value n s of
        None \<Rightarrow> None
      | Some (v, r) \<Rightarrow>
          (let t = skip_ws r in
           if prefix '','' t then map_option (\<lambda>(vs, r'). (v # vs, r')) (json_elements n (tl t))
           else if prefix '']'' t then Some ([v], tl t)
           else None))"
| "json_members 0 s = None"
| "json_members (Suc n) s =
     (let t = skip_ws s in
      if \<not> prefix [CHR 0x22] t then None
      else
        (case json_string (tl t) of
           None \<Rightarrow> None
         | Some (k, r1) \<Rightarrow>
             if \<not> prefix '':'' (skip_ws r1) then None
             else
               (case json_value n (tl (skip_ws r1)) of
                  None \<Rightarrow> None
                | Some (v, r2) \<Rightarrow>
                    (let u = skip_ws r2 in
                     if prefix '','' u
                     then map_option (\<lambda>(ms, r'). ((k, v) # ms, r')) (json_members n (tl u))
                     else if prefix ''}'' u then Some ([(k, v)], tl u)
                     else None))))"

definition json_decode :: "string \<Rightarrow> json option" where
  "json_decode s =
     (case json_value (length s) s of
        None \<Rightarrow> None
      | Some (j, r) \<Rightarrow> if skip_ws r = [] then Some j else None)"

text \<open>\<open>messages[0].content\<close> of a decoded document, when it is a string.\<close>

definition json_member :: "string \<Rightarrow> json \<Rightarrow> json option" where
  "json_member k j = (case j of JObject ms \<Rightarrow> map_of ms k | _ \<Rightarrow> None)"

definition json_element :: "nat \<Rightarrow> json \<Rightarrow> json option" where
  "json_element i j = (case j of JArray vs \<Rightarrow> (if i < length vs then Some (vs ! i) else None) | _ \<Rightarrow> None)"

definition first_message_content :: "json \<Rightarrow> string option" where
  "first_message_content j =
     (case json_member ''messages'' j of
        None \<Rightarrow> None
      | Some ms \<Rightarrow>
          (case json_element 0 ms of
             None \<Rightarrow> None
           | Some m \<Rightarrow> (case json_member ''content'' m of Some (JString c) \<Rightarrow> Some c | _ \<Rightarrow> None)))"

text \<open>The structure that the chat request is meant to be.\<close>

definition request_structure :: "string \<Rightarrow> string \<Rightarrow> string \<Rightarrow> json" where
  "request_structure prompt max_tokens_text temperature_text =
     JObject
       [(''messages'',
           JArray [JObject [(''role'', JString ''user''), (''content'', JString prompt)]]),
        (''model'', JString ''TinyLlama-1.1B-MLC''),
        (''max_tokens'', JNumber max_tokens_text),
        (''temperature'', JNumber temperature_text),
        (''stream'', JBool True)]"

subsection \<open>A scripted engine, worlds and inputs for concrete runs\<close>

text \<open>
  The engine of the specification's end-to-end scenarios: every method is bound,
  everything succeeds, and \<open>chat_completion\<close> gives the scripted answer. Its \<open>std::to_string(float)\<close> is right
  on the bit patterns of the two temperatures that the runs below use, \<open>0.7\<close> and \<open>-1.0\<close>
  (and writes zero for any other). \<open>ready_world\<close> is the empty world
  after one successful \<open>mlc_llm_create_engine\<close>; \<open>host_wrapper\<close> is an initialized
  wrapper that holds the host callback at address 7. \<open>unbound_engine\<close> is the same engine
  without the method \<open>run_background_loop\<close>.
\<close>

definition scripted_to_string_float :: "32 word \<Rightarrow> string" where
  "scripted_to_string_float t =
     (if t = 0x3F333333 then ''0.700000''
      else if t = 0xBF800000 then ''-1.000000''
      else ''0.000000'')"

definition stub_engine :: "bool call_result \<Rightarrow> engine" where
  "stub_engine answer =
     \<lparr>registry = (\<lambda>k. k = factory_key),
      create_func = Returns (),
      get_function = (\<lambda>_. Returns Bound),
      init_background_engine = (\<lambda>_ _. Returns ()),
      reload = (\<lambda>_. Returns ()),
      chat_completion = (\<lambda>_ _. answer),
      get_last_error = Returns ''bad config'',
      exit_background_loop = Returns (),
      to_string_float = scripted_to_string_float\<rparr>"

definition empty_world :: world where
  "empty_world = \<lparr>heap = Map.empty, next_addr = 4096, trace = []\<rparr>"

definition ready_world :: world where
  "ready_world =
     (case mlc_llm_create_engine (stub_engine (Returns True)) ''/models/tiny'' empty_world of
        Done (h, s) \<Rightarrow> s
      | Undefined_Behaviour \<Rightarrow> empty_world)"

definition unbound_engine :: engine where
  "unbound_engine =
     (stub_engine (Returns True))
       \<lparr>get_function :=
          (\<lambda>name. if name = ''run_background_loop'' then Returns Unbound else Returns Bound)\<rparr>"

definition host_wrapper :: wrapper where
  "host_wrapper = \<lparr>model_path = ''/models/tiny'', token_callback = Some 7, is_initialized = True\<rparr>"

definition two_key_fragment :: string where
  \<open>two_key_fragment = ''{"choices":[{"delta":{"content":"a"}},{"delta":{"content":"b"}}]}''\<close>

definition quoted_delta :: string where
  \<open>quoted_delta = ''a"b''\<close>

definition injected_prompt :: string where
  \<open>injected_prompt = ''a","b":"c''\<close>

definition backslash_prompt :: string where
  "backslash_prompt = [CHR ''a'', CHR 0x5C, CHR ''b'']"

section \<open>Properties\<close>

subsection \<open>Searching a string\<close>

lemma find_at_None: "find_at pat cs i = None \<longleftrightarrow> \<not> sublist pat cs"
  by (induction cs arbitrary: i) (auto simp: sublist_Cons_right)

lemma find_str_None_0: "find_str s pat 0 = None \<longleftrightarrow> \<not> sublist pat s"
  by (simp add: find_str_def find_at_None)

lemma prefix_short: "prefix xs (ys @ zs) \<Longrightarrow> length xs \<le> length ys \<Longrightarrow> prefix xs ys"
  by (auto simp: prefix_append)

lemma find_at_first:
  assumes "pat \<noteq> []" and "\<not> sublist pat (pre @ butlast pat)"
  shows "find_at pat (pre @ pat @ rest) i = Some (i + length pre)"
  using assms(2)
proof (induction pre arbitrary: i)
  case Nil
  from assms(1) obtain c cs where "pat @ rest = c # cs" by (cases pat) auto
  moreover have "prefix pat (pat @ rest)" by simp
  ultimately show ?case by simp
next
  case (Cons p ps)
  have split: "(p # ps) @ pat @ rest = ((p # ps) @ butlast pat) @ (last pat # rest)"
    using assms(1) by simp
  have "\<not> prefix pat ((p # ps) @ pat @ rest)"
  proof
    assume "prefix pat ((p # ps) @ pat @ rest)"
    then have "prefix pat (((p # ps) @ butlast pat) @ (last pat # rest))"
      unfolding split .
    moreover have "length pat \<le> length ((p # ps) @ butlast pat)" by simp
    ultimately have "prefix pat ((p # ps) @ butlast pat)" by (rule prefix_short)
    then have "sublist pat ((p # ps) @ butlast pat)" by (rule prefix_imp_sublist)
    with Cons.prems show False by simp
  qed
  moreover have "\<not> sublist pat (ps @ butlast pat)"
    using Cons.prems by (auto simp: sublist_Cons_right)
  ultimately show ?case using Cons.IH by simp
qed

lemma find_str_first:
  assumes "pat \<noteq> []" and "\<not> sublist pat (pre @ butlast pat)"
  shows "find_str (pre @ pat @ rest) pat 0 = Some (length pre)"
  using find_at_first [OF assms, of rest 0] by (simp add: find_str_def)

lemma find_at_char:
  "find_at [q] (xs @ q # post) i = Some (i + length (takeWhile (\<lambda>c. c \<noteq> q) xs))"
  by (induction xs arbitrary: i) auto

lemma content_key_length: "length content_key = 11" by (simp add: content_key_def)

lemma content_key_nonempty: "content_key \<noteq> []" by (simp add: content_key_def)

lemma find_str_quote:
  "find_str (pre @ content_key @ body @ quote @ post) quote (length pre + 11)
     = Some (length pre + 11 + length (takeWhile (\<lambda>c. c \<noteq> CHR 0x22) body))"
proof -
  have len: "length content_key = 11" by (simp add: content_key_def)
  then have "drop (length pre + 11) (pre @ content_key @ body @ quote @ post)
               = body @ quote @ post"
    by simp
  moreover have "\<not> length (pre @ content_key @ body @ quote @ post) < length pre + 11"
    by (simp add: len)
  ultimately show ?thesis
    using find_at_char [of "CHR 0x22" body post "length pre + 11"]
    by (simp only: find_str_def quote_def if_False append_Cons append_Nil)
qed

lemma take_raw:
  "take (length (takeWhile P body)) (body @ rest) = takeWhile P body"
proof -
  have "take (length (takeWhile P body)) (body @ rest) = take (length (takeWhile P body)) body"
    by (simp add: length_takeWhile_le)
  also have "\<dots> = takeWhile P body" by (rule takeWhile_eq_take [symmetric])
  finally show ?thesis .
qed

subsection \<open>The stream-response handler\<close>

text \<open>
  What the handler does with a fragment whose first content field starts after \<open>pre\<close>:
  it reads the field up to the next double quote and forwards that text, when it is not
  empty, as a C string. Nothing after the closing quote is looked at.
\<close>

lemma process_first_field:
  assumes first: "\<not> sublist content_key (pre @ butlast content_key)"
  shows "processStreamResponse w (pre @ content_key @ body @ quote @ post)
           = (case token_callback w of
                None \<Rightarrow> []
              | Some cb \<Rightarrow>
                  if takeWhile (\<lambda>c. c \<noteq> CHR 0x22) body = [] then []
                  else [(cb, c_str (takeWhile (\<lambda>c. c \<noteq> CHR 0x22) body))])"
proof -
  let ?frag = "pre @ content_key @ body @ quote @ post"
  let ?raw = "takeWhile (\<lambda>c. c \<noteq> CHR 0x22) body"
  have f1: "find_str ?frag content_key 0 = Some (length pre)"
    using find_str_first [OF content_key_nonempty first] .
  have f2: "find_str ?frag quote (length pre + 11) = Some (length pre + 11 + length ?raw)"
    by (rule find_str_quote)
  have "drop (length pre + 11) ?frag = body @ quote @ post"
    by (simp add: content_key_length)
  then have sub: "substr ?frag (length pre + 11) (length ?raw) = ?raw"
    by (simp only: substr_def take_raw)
  show ?thesis
    by (simp add: processStreamResponse_def f1 f2 sub Let_def split: option.splits)
qed

text \<open>
  Claim C6. A content field of a fragment is an occurrence of the text \<open>"content":"\<close>,
  as the data model of the specification has it. For every stream fragment in which that
  text does not occur, and for every fragment whose first content field is closed at once
  (its value is the empty string), the stream-response handler makes no call to the host
  token sink, whatever callback is stored.
\<close>

theorem no_content_no_sink_call:
  assumes "\<not> sublist content_key frag
           \<or> (\<exists>pre post. frag = pre @ content_key @ quote @ post
                 \<and> \<not> sublist content_key (pre @ butlast content_key))"
  shows "processStreamResponse w frag = []"
  using assms
proof
  assume "\<not> sublist content_key frag"
  then have "find_str frag content_key 0 = None" by (simp add: find_str_None_0)
  then show ?thesis by (simp add: processStreamResponse_def split: option.splits)
next
  assume "\<exists>pre post. frag = pre @ content_key @ quote @ post
             \<and> \<not> sublist content_key (pre @ butlast content_key)"
  then obtain pre post where frag: "frag = pre @ content_key @ [] @ quote @ post"
    and first: "\<not> sublist content_key (pre @ butlast content_key)" by auto
  from process_first_field [OF first, of w "[]" post] show ?thesis
    unfolding frag by (simp split: option.splits)
qed

text \<open>
  Claim C6 on the terminal fragment of the specification's first scenario and on a
  fragment with an empty content string.
\<close>

theorem no_content_no_sink_call_witness:
  \<open>\<not> sublist content_key ''{"choices":[{"finish_reason":"stop"}]}''
    \<and> processStreamResponse
         host_wrapper
         ''{"choices":[{"finish_reason":"stop"}]}'' = []
    \<and> (\<exists>pre post. ''{"choices":[{"delta":{"content":""}}]}'' = pre @ content_key @ quote @ post
            \<and> \<not> sublist content_key (pre @ butlast content_key))
    \<and> processStreamResponse
         host_wrapper
         ''{"choices":[{"delta":{"content":""}}]}'' = []\<close>
proof -
  have none: \<open>\<not> sublist content_key ''{"choices":[{"finish_reason":"stop"}]}''\<close>
    unfolding find_str_None_0 [symmetric]
    by (simp add: find_str_def content_key_def)
  then have h1: \<open>\<not> sublist content_key ''{"choices":[{"finish_reason":"stop"}]}''
      \<or> (\<exists>pre post. ''{"choices":[{"finish_reason":"stop"}]}'' = pre @ content_key @ quote @ post
            \<and> \<not> sublist content_key (pre @ butlast content_key))\<close> ..
  have first: \<open>\<not> sublist content_key (''{"choices":[{"delta":{'' @ butlast content_key)\<close>
    unfolding find_str_None_0 [symmetric]
    by (simp add: find_str_def content_key_def)
  have shape: \<open>''{"choices":[{"delta":{"content":""}}]}''
      = ''{"choices":[{"delta":{'' @ content_key @ quote @ ''}}]}''\<close>
    by (simp add: content_key_def quote_def)
  from shape first
  have ex: \<open>\<exists>pre post. ''{"choices":[{"delta":{"content":""}}]}'' = pre @ content_key @ quote @ post
            \<and> \<not> sublist content_key (pre @ butlast content_key)\<close>
    by blast
  then have h2: \<open>\<not> sublist content_key ''{"choices":[{"delta":{"content":""}}]}''
      \<or> (\<exists>pre post. ''{"choices":[{"delta":{"content":""}}]}'' = pre @ content_key @ quote @ post
            \<and> \<not> sublist content_key (pre @ butlast content_key))\<close> ..
  from none no_content_no_sink_call [OF h1] ex no_content_no_sink_call [OF h2]
  show ?thesis by blast
qed

text \<open>
  Claim C1 fails on a fragment with two content keys, \<open>a\<close> and \<open>b\<close>. The fragment is
  well-formed JSON with two choices, the specification's extractor yields both deltas,
  and the handler calls the sink once, with \<open>a\<close>.
\<close>

theorem two_content_keys_one_sink_call:
  "json_decode two_key_fragment
     = Some (JObject [(''choices'',
          JArray [JObject [(''delta'', JObject [(''content'', JString ''a'')])],
                  JObject [(''delta'', JObject [(''content'', JString ''b'')])]])])
   \<and> spec_content_deltas two_key_fragment = [''a'', ''b'']
   \<and> processStreamResponse host_wrapper two_key_fragment = [(7, ''a'')]"
proof -
  have "json_decode two_key_fragment
     = Some (JObject [(''choices'',
          JArray [JObject [(''delta'', JObject [(''content'', JString ''a'')])],
                  JObject [(''delta'', JObject [(''content'', JString ''b'')])]])])"
    by (simp add: json_decode_def two_key_fragment_def Let_def skip_ws_def is_ws_def
          is_digit_def starts_number_def is_control_def simple_escape_def)
  moreover have "spec_content_deltas two_key_fragment = [''a'', ''b'']"
    by (simp add: spec_content_deltas_def spec_content_deltas_from.simps two_key_fragment_def
          find_str_def content_key_def quote_def substr_def)
  moreover have "processStreamResponse host_wrapper two_key_fragment = [(7, ''a'')]"
    by (simp add: two_key_fragment_def find_str_def content_key_def quote_def substr_def
          processStreamResponse_def host_wrapper_def c_str_def)
  ultimately show ?thesis by (intro conjI)
qed

text \<open>
  Claim C1, amended. For every stream fragment the handler looks at the first content
  field only: the sink is invoked once, with the text of that field (as a C string), when
  that text is not empty, and not at all otherwise. So a fragment with at most one
  content field gives exactly as many calls as it has non-empty content deltas, and a
  fragment with several content keys gives the first delta only.
\<close>

theorem sink_called_for_first_content_field_only:
  "processStreamResponse w frag =
     (case token_callback w of
        None \<Rightarrow> []
      | Some cb \<Rightarrow>
          map (\<lambda>d. (cb, c_str d))
            (filter (\<lambda>d. d \<noteq> []) (take 1 (spec_content_deltas frag))))
   \<and> (length (spec_content_deltas frag) \<le> 1 \<longrightarrow>
        processStreamResponse (w\<lparr>token_callback := Some cb\<rparr>) frag
          = map (\<lambda>d. (cb, c_str d)) (filter (\<lambda>d. d \<noteq> []) (spec_content_deltas frag)))"
proof -
  have first: "processStreamResponse v frag =
     (case token_callback v of
        None \<Rightarrow> []
      | Some cb \<Rightarrow>
          map (\<lambda>d. (cb, c_str d))
            (filter (\<lambda>d. d \<noteq> []) (take 1 (spec_content_deltas frag))))" for v
    by (subst spec_content_deltas_def, subst spec_content_deltas_from.simps)
       (simp add: processStreamResponse_def Let_def split: option.splits)
  show ?thesis
  proof (intro conjI impI)
    show "processStreamResponse w frag =
     (case token_callback w of
        None \<Rightarrow> []
      | Some cb \<Rightarrow>
          map (\<lambda>d. (cb, c_str d))
            (filter (\<lambda>d. d \<noteq> []) (take 1 (spec_content_deltas frag))))"
      by (rule first)
  next
    assume "length (spec_content_deltas frag) \<le> 1"
    then have "take 1 (spec_content_deltas frag) = spec_content_deltas frag" by simp
    then show "processStreamResponse (w\<lparr>token_callback := Some cb\<rparr>) frag
          = map (\<lambda>d. (cb, c_str d)) (filter (\<lambda>d. d \<noteq> []) (spec_content_deltas frag))"
      by (simp add: first)
  qed
qed

text \<open>
  Claim C1, amended, on the first fragment of the specification's first scenario: one
  content delta, one call.
\<close>

theorem sink_called_for_first_content_field_only_witness:
  "length (spec_content_deltas (fragment_containing ''hello'')) \<le> 1
   \<and> spec_content_deltas (fragment_containing ''hello'') = [''hello'']
   \<and> processStreamResponse (host_wrapper\<lparr>token_callback := Some 7\<rparr>)
        (fragment_containing ''hello'') = [(7, ''hello'')]"
proof -
  have deltas: "spec_content_deltas (fragment_containing ''hello'') = [''hello'']"
    by (simp add: spec_content_deltas_def spec_content_deltas_from.simps fragment_containing_def
          json_escape_def json_escape_char_def is_control_def find_str_def content_key_def
          quote_def substr_def)
  then have short: "length (spec_content_deltas (fragment_containing ''hello'')) \<le> 1" by simp
  from sink_called_for_first_content_field_only
         [of host_wrapper "fragment_containing ''hello''" 7] short
  have "processStreamResponse (host_wrapper\<lparr>token_callback := Some 7\<rparr>)
          (fragment_containing ''hello'')
        = map (\<lambda>d. (7, c_str d))
            (filter (\<lambda>d. d \<noteq> []) (spec_content_deltas (fragment_containing ''hello'')))"
    by blast
  then have "processStreamResponse (host_wrapper\<lparr>token_callback := Some 7\<rparr>)
        (fragment_containing ''hello'') = [(7, ''hello'')]"
    by (simp add: deltas c_str_def)
  with short deltas show ?thesis by blast
qed

lemma fragment_prefix_first:
  \<open>\<not> sublist content_key (''{"choices":[{"delta":{'' @ butlast content_key)\<close>
  unfolding find_str_None_0 [symmetric]
  by (simp add: find_str_def content_key_def)

lemma fragment_shape:
  \<open>fragment_containing d
     = ''{"choices":[{"delta":{'' @ content_key @ json_escape d @ quote @ ''}}]}''\<close>
  by (simp add: fragment_containing_def content_key_def quote_def)

lemma control_characters:
  "is_control (CHR 0x00)" "is_control (CHR 0x08)" "is_control (CHR 0x09)"
  "is_control (CHR 0x0A)" "is_control (CHR 0x0C)" "is_control (CHR 0x0D)"
  by (simp_all add: is_control_def)

lemma json_escape_char_clean:
  assumes "\<not> needs_escape c"
  shows "json_escape_char c = [c]"
proof -
  from assms have "c \<noteq> CHR 0x22" "c \<noteq> CHR 0x5C" "\<not> is_control c"
    by (simp_all add: needs_escape_def)
  moreover from \<open>\<not> is_control c\<close> have "c \<noteq> CHR 0x08" "c \<noteq> CHR 0x09" "c \<noteq> CHR 0x0A"
    "c \<noteq> CHR 0x0C" "c \<noteq> CHR 0x0D"
    using control_characters by blast+
  ultimately show ?thesis by (simp add: json_escape_char_def)
qed

lemma json_escape_clean: "\<forall>c \<in> set d. \<not> needs_escape c \<Longrightarrow> json_escape d = d"
  by (induction d) (simp_all add: json_escape_def json_escape_char_clean)

lemma clean_raw:
  assumes "\<forall>c \<in> set d. \<not> needs_escape c"
  shows "takeWhile (\<lambda>c. c \<noteq> CHR 0x22) d = d" and "c_str d = d"
proof -
  show "takeWhile (\<lambda>c. c \<noteq> CHR 0x22) d = d"
    using assms by (induction d) (auto simp: needs_escape_def)
  have "c \<noteq> CHR 0x00" if "c \<in> set d" for c
    using that assms control_characters(1) by (auto simp: needs_escape_def)
  then show "c_str d = d"
    unfolding c_str_def by (induction d) auto
qed

lemma json_string_clean:
  "\<forall>c \<in> set p. \<not> needs_escape c \<Longrightarrow> json_string (p @ CHR 0x22 # rest) = Some (p, rest)"
  by (induction p) (auto simp: needs_escape_def)

lemma json_unescape_clean: "\<forall>c \<in> set d. \<not> needs_escape c \<Longrightarrow> json_unescape d = Some d"
  by (simp add: json_unescape_def json_string_clean)

text \<open>
  Claim C3 fails on the delta \<open>a"b\<close>: the engine sends it with the quote escaped, in a
  fragment that decodes to that delta; the handler stops at the escaped quote and forwards
  \<open>a\<close> followed by a backslash. That text is not the delta, and unescaping it does not give
  the delta either, while unescaping the whole escaped value does.
\<close>

theorem escaped_delta_forwarded_raw:
  "json_decode (fragment_containing quoted_delta)
     = Some (JObject [(''choices'',
          JArray [JObject [(''delta'', JObject [(''content'', JString quoted_delta)])]])])
   \<and> processStreamResponse host_wrapper (fragment_containing quoted_delta)
       = [(7, [CHR ''a'', CHR 0x5C])]
   \<and> [CHR ''a'', CHR 0x5C] \<noteq> quoted_delta
   \<and> json_unescape [CHR ''a'', CHR 0x5C] = None
   \<and> json_unescape (json_escape quoted_delta) = Some quoted_delta"
proof -
  have "json_decode (fragment_containing quoted_delta)
     = Some (JObject [(''choices'',
          JArray [JObject [(''delta'', JObject [(''content'', JString quoted_delta)])]])])"
    by (simp add: json_decode_def fragment_containing_def quoted_delta_def json_escape_def
          json_escape_char_def Let_def skip_ws_def is_ws_def is_digit_def starts_number_def
          is_control_def simple_escape_def)
  moreover have "processStreamResponse host_wrapper (fragment_containing quoted_delta)
       = [(7, [CHR ''a'', CHR 0x5C])]"
    by (simp add: fragment_containing_def quoted_delta_def json_escape_def json_escape_char_def
          processStreamResponse_def host_wrapper_def find_str_def content_key_def quote_def
          substr_def c_str_def is_control_def)
  moreover have "[CHR ''a'', CHR 0x5C] \<noteq> quoted_delta"
    by (simp add: quoted_delta_def)
  moreover have "json_unescape [CHR ''a'', CHR 0x5C] = None"
    by (simp add: json_unescape_def is_control_def simple_escape_def)
  moreover have "json_unescape (json_escape quoted_delta) = Some quoted_delta"
    by (simp add: quoted_delta_def json_escape_def json_escape_char_def json_unescape_def
          is_control_def simple_escape_def)
  ultimately show ?thesis by (intro conjI)
qed

text \<open>
  Claim C3, amended. The handler forwards the text of the content field as it stands in
  the fragment, up to the first double quote, with no unescaping. For every non-empty
  delta \<open>d\<close> that needs no escaping (no double quote, no backslash, no control character)
  the fragment holds \<open>d\<close> itself, the sink receives exactly \<open>d\<close>, and unescaping what the
  sink received gives \<open>d\<close>.
\<close>

theorem content_forwarded_without_unescaping:
  "processStreamResponse w (fragment_containing d)
     = (case token_callback w of
          None \<Rightarrow> []
        | Some cb \<Rightarrow>
            if takeWhile (\<lambda>c. c \<noteq> CHR 0x22) (json_escape d) = [] then []
            else [(cb, c_str (takeWhile (\<lambda>c. c \<noteq> CHR 0x22) (json_escape d)))])
   \<and> (d \<noteq> [] \<and> (\<forall>c \<in> set d. \<not> needs_escape c) \<longrightarrow>
        json_escape d = d
        \<and> map (\<lambda>(cb, text). json_unescape text)
            (processStreamResponse (w\<lparr>token_callback := Some cb\<rparr>) (fragment_containing d))
          = [Some d]
        \<and> processStreamResponse (w\<lparr>token_callback := Some cb\<rparr>) (fragment_containing d)
          = [(cb, d)])"
proof -
  have general: "processStreamResponse v (fragment_containing d)
     = (case token_callback v of
          None \<Rightarrow> []
        | Some cb \<Rightarrow>
            if takeWhile (\<lambda>c. c \<noteq> CHR 0x22) (json_escape d) = [] then []
            else [(cb, c_str (takeWhile (\<lambda>c. c \<noteq> CHR 0x22) (json_escape d)))])" for v
    unfolding fragment_shape by (rule process_first_field [OF fragment_prefix_first])
  have clean: "json_escape d = d \<and> takeWhile (\<lambda>c. c \<noteq> CHR 0x22) d = d \<and> c_str d = d
      \<and> json_unescape d = Some d"
    if "\<forall>c \<in> set d. \<not> needs_escape c"
    using that json_escape_clean [of d] clean_raw [of d] json_unescape_clean [of d] by blast
  show ?thesis
  proof (intro conjI impI)
    show "processStreamResponse w (fragment_containing d)
     = (case token_callback w of
          None \<Rightarrow> []
        | Some cb \<Rightarrow>
            if takeWhile (\<lambda>c. c \<noteq> CHR 0x22) (json_escape d) = [] then []
            else [(cb, c_str (takeWhile (\<lambda>c. c \<noteq> CHR 0x22) (json_escape d)))])"
      by (rule general)
  next
    assume a: "d \<noteq> [] \<and> (\<forall>c \<in> set d. \<not> needs_escape c)"
    with clean show "json_escape d = d" by blast
    from a clean have c: "json_escape d = d" "takeWhile (\<lambda>c. c \<noteq> CHR 0x22) d = d" "c_str d = d"
      "json_unescape d = Some d" "d \<noteq> []"
      by blast+
    have p: "processStreamResponse (w\<lparr>token_callback := Some cb\<rparr>) (fragment_containing d)
          = [(cb, d)]"
      unfolding general by (simp only: c) (simp add: c(5))
    then show "processStreamResponse (w\<lparr>token_callback := Some cb\<rparr>) (fragment_containing d)
          = [(cb, d)]" .
    from p show "map (\<lambda>(cb, text). json_unescape text)
            (processStreamResponse (w\<lparr>token_callback := Some cb\<rparr>) (fragment_containing d))
          = [Some d]"
      by (simp add: c(4))
  qed
qed

text \<open>Claim C3, amended, on the delta of the specification's first scenario.\<close>

theorem content_forwarded_without_unescaping_witness:
  "''hello'' \<noteq> [] \<and> list_all (\<lambda>c. \<not> needs_escape c) ''hello''
   \<and> json_escape ''hello'' = ''hello''
   \<and> map (\<lambda>(cb, text). json_unescape text)
        (processStreamResponse (host_wrapper\<lparr>token_callback := Some 7\<rparr>)
           (fragment_containing ''hello'')) = [Some ''hello'']
   \<and> processStreamResponse (host_wrapper\<lparr>token_callback := Some 7\<rparr>)
        (fragment_containing ''hello'') = [(7, ''hello'')]"
proof -
  have clean: "''hello'' \<noteq> [] \<and> (\<forall>c \<in> set ''hello''. \<not> needs_escape c)"
    by (simp add: needs_escape_def is_control_def)
  from content_forwarded_without_unescaping [of host_wrapper "''hello''" 7] clean
  have "json_escape ''hello'' = ''hello''
   \<and> map (\<lambda>(cb, text). json_unescape text)
        (processStreamResponse (host_wrapper\<lparr>token_callback := Some 7\<rparr>)
           (fragment_containing ''hello'')) = [Some ''hello'']
   \<and> processStreamResponse (host_wrapper\<lparr>token_callback := Some 7\<rparr>)
        (fragment_containing ''hello'') = [(7, ''hello'')]"
    by blast
  moreover have "''hello'' \<noteq> []" by simp
  moreover have "list_all (\<lambda>c. \<not> needs_escape c) ''hello''"
    by (simp add: needs_escape_def is_control_def)
  ultimately show ?thesis by blast
qed

lemma run_steps_end:
  "fst (run_steps []) = Completed"
  "fst (run_steps ((ev, c) # rest)) = (if c = Completed then fst (run_steps rest) else c)"
  by (cases c; simp split: prod.splits)+

lemma plain_step_simps:
  "plain_step r = Completed \<longleftrightarrow> r \<noteq> Throws"
  "plain_step r = Thrown \<longleftrightarrow> r = Throws"
  "plain_step r \<noteq> Null_Called"
  by (simp_all add: plain_step_def split: call_result.splits)

lemma call_step_simps:
  "call_step b r = Completed \<longleftrightarrow> b \<noteq> Returns Unbound \<and> r \<noteq> Throws"
  "call_step b r = Null_Called \<longleftrightarrow> b = Returns Unbound"
  by (auto simp: call_step_def plain_step_def split: call_result.splits binding.splits)

lemma not_throws_bound: "b \<noteq> Throws \<and> b \<noteq> Returns Unbound \<longleftrightarrow> b = Returns Bound"
  by (cases b) (auto intro: binding.exhaust)

lemma constructor_end:
  "snd (snd (MLCEngineWrapper e path))
     = (if registry e factory_key then fst (run_steps (constructor_steps e path)) else Thrown)"
  "is_initialized (fst (MLCEngineWrapper e path))
     \<longleftrightarrow> snd (snd (MLCEngineWrapper e path)) = Completed"
  by (simp_all add: MLCEngineWrapper_def Let_def split: prod.splits)

lemma constructor_completed:
  "snd (snd (MLCEngineWrapper e path)) = Completed \<longleftrightarrow> constructor_completes e path"
  unfolding constructor_end(1) constructor_completes_def constructor_steps_def
  using not_throws_bound [of "get_function e ''init_background_engine''"]
    not_throws_bound [of "get_function e ''reload''"]
  by (auto simp: run_steps_end plain_step_simps call_step_simps simp del: run_steps.simps)

lemma constructor_null_called:
  "snd (snd (MLCEngineWrapper e path)) = Null_Called \<longleftrightarrow> constructor_calls_null e path"
  unfolding constructor_end(1) constructor_calls_null_def constructor_steps_def
  by (auto simp: run_steps_end plain_step_simps call_step_simps simp del: run_steps.simps)

lemma constructor_fields:
  "token_callback (fst (MLCEngineWrapper e path)) = None"
  "model_path (fst (MLCEngineWrapper e path)) = path"
  by (simp_all add: MLCEngineWrapper_def Let_def split: prod.splits)

lemma destroy_uninitialized: "\<not> is_initialized w \<Longrightarrow> destroy_wrapper e w = Done []"
  by (simp add: destroy_wrapper_def)

lemma create_engine_cases:
  "mlc_llm_create_engine e path s =
     (if snd (snd (MLCEngineWrapper e path)) = Null_Called then Undefined_Behaviour
      else if snd (snd (MLCEngineWrapper e path)) = Completed
      then Done (Some (next_addr s),
                 s\<lparr>heap := (heap s)(next_addr s \<mapsto> fst (MLCEngineWrapper e path)),
                   next_addr := Suc (next_addr s),
                   trace := trace s @ fst (snd (MLCEngineWrapper e path))\<rparr>)
      else Done (None, s\<lparr>trace := trace s @ fst (snd (MLCEngineWrapper e path))\<rparr>))"
proof -
  obtain w evs c where m: "MLCEngineWrapper e path = (w, evs, c)"
    by (cases "MLCEngineWrapper e path")
  have init: "is_initialized w \<longleftrightarrow> c = Completed"
    using constructor_end(2) [of e path] m by simp
  show ?thesis
    by (simp add: mlc_llm_create_engine_def m init destroy_uninitialized)
qed

lemma ready_world_handle:
  "mlc_llm_create_engine (stub_engine (Returns True)) ''/models/tiny'' empty_world
     = Done (Some 4096, ready_world)"
  by (simp add: ready_world_def mlc_llm_create_engine_def MLCEngineWrapper_def Let_def
        stub_engine_def constructor_steps_def plain_step_def call_step_def empty_world_def)

lemma ready_world_heap:
  "heap ready_world 4096
     = Some \<lparr>model_path = ''/models/tiny'', token_callback = None, is_initialized = True\<rparr>"
  by (simp add: ready_world_def mlc_llm_create_engine_def MLCEngineWrapper_def Let_def
        stub_engine_def constructor_steps_def plain_step_def call_step_def empty_world_def)

text \<open>
  Claim C10. The stream-response handler makes no call to the host sink, for every
  fragment, when no callback is stored: on a wrapper as the constructor leaves it (no
  \<open>generate\<close> call yet), on any wrapper whose callback is empty, and on an initialized
  wrapper after a \<open>generate\<close> call that stored a null callback. A fragment that the engine
  streams to a wrapper just created leaves the world as it is.
\<close>

theorem empty_callback_never_invoked:
  "processStreamResponse (fst (MLCEngineWrapper e path)) frag = []
   \<and> processStreamResponse (w\<lparr>token_callback := None\<rparr>) frag = []
   \<and> (is_initialized w \<longrightarrow>
        processStreamResponse (fst (snd (generate e w p mt t None now))) frag = [])
   \<and> (mlc_llm_create_engine e path s = Done (Some a, s') \<longrightarrow>
        stream_callback a frag s' = Done s')"
proof -
  have empty: "token_callback (fst (MLCEngineWrapper e path)) = None"
    by (rule constructor_fields(1))
  have "mlc_llm_create_engine e path s = Done (Some a, s') \<longrightarrow>
        stream_callback a frag s' = Done s'"
    unfolding create_engine_cases
    by (auto simp: stream_callback_def processStreamResponse_def empty split: if_splits)
  then show ?thesis
    by (simp add: processStreamResponse_def constructor_fields generate_def Let_def
          split: call_result.splits)
qed

text \<open>
  Claim C10 on a \<open>generate\<close> call with a null callback and on the world right after a
  successful creation.
\<close>

theorem empty_callback_never_invoked_witness:
  "is_initialized host_wrapper
   \<and> processStreamResponse
        (fst (snd (generate (stub_engine (Returns True)) host_wrapper ''hi'' 16 0x3F333333 None 5)))
        (fragment_containing ''hello'') = []
   \<and> mlc_llm_create_engine (stub_engine (Returns True)) ''/models/tiny'' empty_world
       = Done (Some 4096, ready_world)
   \<and> stream_callback 4096 (fragment_containing ''hello'') ready_world = Done ready_world"
proof -
  have init: "is_initialized host_wrapper" by (simp add: host_wrapper_def)
  from empty_callback_never_invoked [of "stub_engine (Returns True)" "''/models/tiny''"
      "fragment_containing ''hello''" host_wrapper "''hi''" 16 "0x3F333333" 5 empty_world 4096
      ready_world]
    init ready_world_handle
  show ?thesis by simp
qed

subsection \<open>The chat request\<close>

text \<open>\<open>std::to_string\<close> of an integer is a JSON number.\<close>

lemma digit_char_is_digit: "d < 10 \<Longrightarrow> is_digit (digit_char d)"
  unfolding is_digit_def digit_char_def by (rule nth_mem) simp

lemma digits_all: "list_all is_digit (digits n)"
proof (induction n rule: digits.induct)
  case (1 n)
  show ?case
  proof (cases "n < 10")
    case True
    then show ?thesis by (subst digits.simps) (simp add: digit_char_is_digit)
  next
    case False
    with 1 show ?thesis by (subst digits.simps) (simp add: digit_char_is_digit)
  qed
qed

lemma digits_nonempty: "digits n \<noteq> []"
  by (subst digits.simps) simp

lemma digit_char_zero: "d < 10 \<Longrightarrow> digit_char d = CHR ''0'' \<Longrightarrow> d = 0"
proof -
  assume "d < 10" and z: "digit_char d = CHR ''0''"
  then have "d \<in> {0, 1, 2, 3, 4, 5, 6, 7, 8, 9}" by auto
  with z show "d = 0" by (auto simp: digit_char_def)
qed

lemma digits_hd: "hd (digits n) = CHR ''0'' \<Longrightarrow> n = 0"
proof (induction n rule: digits.induct)
  case (1 n)
  show ?case
  proof (cases "n < 10")
    case True
    with "1.prems" show ?thesis by (subst (asm) digits.simps) (simp add: digit_char_zero)
  next
    case False
    with "1.prems" have "hd (digits (n div 10)) = CHR ''0''"
      by (subst (asm) digits.simps) (simp add: digits_nonempty)
    with 1 False have "n div 10 = 0" by simp
    with False show ?thesis by simp
  qed
qed

lemma digits_length_zero: "digits 0 = ''0''"
  by (subst digits.simps) (simp add: digit_char_def)

lemma digits_json_int: "is_json_int (digits n)"
  using digits_hd [of n]
  by (auto simp: is_json_int_def digits_nonempty digits_all digits_length_zero)

lemma takeWhile_all: "list_all P xs \<Longrightarrow> takeWhile P xs = xs"
  by (induction xs) auto

lemma dropWhile_all: "list_all P xs \<Longrightarrow> dropWhile P xs = []"
  by (induction xs) auto

lemma digits_number: "is_json_number (digits n)"
proof -
  have "hd (digits n) \<noteq> CHR ''-''"
    using digits_all [of n] digits_nonempty [of n]
    by (cases "digits n") (auto simp: is_digit_def)
  then show ?thesis
    using digits_all [of n]
    by (simp add: list_all_iff is_json_number_def Let_def takeWhile_all dropWhile_all
          digits_json_int is_json_frac_def is_json_exp_def)
qed

lemma to_string_int_number: "is_json_number (to_string_int i)"
proof (cases "i < 0")
  case False
  then show ?thesis by (simp add: to_string_int_def digits_number)
next
  case True
  then show ?thesis
    using digits_all [of "nat (- i)"]
    by (simp add: list_all_iff to_string_int_def is_json_number_def Let_def takeWhile_all dropWhile_all
          digits_json_int is_json_frac_def is_json_exp_def)
qed

text \<open>What the decoder does at a number that is followed by another character.\<close>

lemma number_start:
  assumes "is_json_number x"
  shows "x \<noteq> [] \<and> (hd x = CHR ''-'' \<or> is_digit (hd x))"
proof (cases "x \<noteq> [] \<and> hd x = CHR ''-''")
  case True
  then show ?thesis by simp
next
  case False
  with assms have "takeWhile is_digit x \<noteq> []"
    by (auto simp: is_json_number_def Let_def is_json_int_def)
  then show ?thesis by (cases x) (auto split: if_splits)
qed

lemma number_chars:
  assumes "is_json_number x"
  shows "list_all number_char x"
proof -
  define u where "u = (if x \<noteq> [] \<and> hd x = CHR ''-'' then tl x else x)"
  define r where "r = dropWhile is_digit u"
  define fp where
    "fp = (if r \<noteq> [] \<and> hd r = CHR ''.'' then CHR ''.'' # takeWhile is_digit (tl r) else [])"
  define ex where "ex = drop (length fp) r"
  from assms have "is_json_int (takeWhile is_digit u) \<and> is_json_frac fp \<and> is_json_exp ex"
    unfolding is_json_number_def Let_def u_def r_def fp_def ex_def .
  then have exp: "is_json_exp ex" by simp
  have digs: "list_all number_char (takeWhile is_digit u)"
    by (induction u) (auto simp: number_char_def)
  have fps: "list_all number_char fp"
  proof -
    have "list_all number_char (takeWhile is_digit (tl r))"
      by (induction "tl r") (auto simp: number_char_def list_all_iff dest: set_takeWhileD)
    then show ?thesis by (simp add: fp_def number_char_def)
  qed
  have r_split: "r = fp @ ex"
  proof (cases "r \<noteq> [] \<and> hd r = CHR ''.''")
    case False
    then have "fp = []" by (auto simp: fp_def)
    then show ?thesis by (simp add: ex_def)
  next
    case True
    then obtain rs where r: "r = CHR ''.'' # rs" by (cases r) auto
    then have "fp = CHR ''.'' # takeWhile is_digit rs" by (simp add: fp_def)
    then show ?thesis by (simp add: ex_def r dropWhile_eq_drop [symmetric])
  qed
  have exs: "list_all number_char ex"
  proof (cases ex)
    case Nil
    then show ?thesis by simp
  next
    case (Cons c cs)
    with exp show ?thesis
      by (cases cs) (auto simp: is_json_exp_def number_char_def Let_def list_all_iff split: if_splits)
  qed
  have "u = takeWhile is_digit u @ dropWhile is_digit u" by simp
  then have "u = takeWhile is_digit u @ fp @ ex"
    using r_split by (simp only: r_def)
  then have "list_all number_char u" using digs fps exs by (metis list_all_append)
  then show ?thesis
    by (cases x) (auto simp: u_def number_char_def split: if_splits)
qed

lemma skip_ws_number: "is_json_number x \<Longrightarrow> dropWhile is_ws (x @ r) = x @ r"
  using number_start [of x] by (cases x) (auto simp: is_ws_def is_digit_def)

lemma starts_number_append: "is_json_number x \<Longrightarrow> starts_number (x @ r)"
  using number_start [of x] by (cases x) (auto simp: starts_number_def)

lemma json_number_append:
  assumes "is_json_number x" and "\<not> number_char d"
  shows "json_number (x @ d # rest) = Some (JNumber x, d # rest)"
proof -
  have all: "list_all number_char x" using assms(1) by (rule number_chars)
  then have "takeWhile number_char (x @ d # rest) = x"
    using assms(2) by (simp add: takeWhile_append2 list_all_iff)
  moreover from all have "dropWhile number_char (x @ d # rest) = d # rest"
    using assms(2) by (simp add: dropWhile_append2 list_all_iff)
  ultimately show ?thesis using assms(1) by (simp add: json_number_def)
qed

lemma starts_number_simps:
  "starts_number [] = False"
  "starts_number (c # cs) = (c = CHR ''-'' \<or> is_digit c)"
  by (simp_all add: starts_number_def)

text \<open>More fuel never changes what the decoder returns.\<close>

lemma json_fuel_step:
  "(json_value n s = Some r \<longrightarrow> json_value (Suc n) s = Some r)
   \<and> (json_elements n s = Some re \<longrightarrow> json_elements (Suc n) s = Some re)
   \<and> (json_members n s = Some rm \<longrightarrow> json_members (Suc n) s = Some rm)"
proof (induction n arbitrary: s r re rm)
  case 0
  show ?case by simp
next
  case (Suc n)
  have v: "json_value n s = Some r \<Longrightarrow> json_value (Suc n) s = Some r" for s r
    using Suc.IH by blast
  have e: "json_elements n s = Some r \<Longrightarrow> json_elements (Suc n) s = Some r" for s r
    using Suc.IH by blast
  have m: "json_members n s = Some r \<Longrightarrow> json_members (Suc n) s = Some r" for s r
    using Suc.IH by blast
  have "json_value (Suc n) s = Some r \<Longrightarrow> json_value (Suc (Suc n)) s = Some r"
    by (subst json_value.simps, subst (asm) json_value.simps)
       (auto simp: Let_def split: list.splits if_splits dest!: e m
             simp del: json_elements.simps json_members.simps json_value.simps)
  moreover have "json_elements (Suc n) s = Some re \<Longrightarrow> json_elements (Suc (Suc n)) s = Some re"
    by (subst json_elements.simps, subst (asm) json_elements.simps)
       (auto simp: Let_def split: option.splits if_splits dest!: v e
             simp del: json_elements.simps json_members.simps json_value.simps)
  moreover have "json_members (Suc n) s = Some rm \<Longrightarrow> json_members (Suc (Suc n)) s = Some rm"
    by (subst json_members.simps, subst (asm) json_members.simps)
       (auto simp: Let_def split: option.splits if_splits dest!: v m
             simp del: json_elements.simps json_members.simps json_value.simps)
  ultimately show ?case by blast
qed

lemma json_fuel_mono: "json_value n s = Some r \<Longrightarrow> json_value (n + k) s = Some r"
  by (induction k) (simp_all add: json_fuel_step del: json_value.simps)

text \<open>
  Nine units of fuel are enough for a chat request, and the document is longer than that.
  A document that is rejected with nine units or more is rejected with any fuel.
\<close>

lemma rejected_with_any_fuel:
  assumes "\<And>k. json_value (Suc (Suc (Suc (Suc (Suc (Suc (Suc (Suc (Suc k))))))))) s = None"
  shows "json_value n s = None"
proof (rule ccontr)
  assume "json_value n s \<noteq> None"
  then obtain r where "json_value n s = Some r" by blast
  then have "json_value (n + 9) s = Some r" by (rule json_fuel_mono)
  moreover have "n + 9 = Suc (Suc (Suc (Suc (Suc (Suc (Suc (Suc (Suc n))))))))" by simp
  ultimately show False using assms [of n] by simp
qed

lemma decode_from_value:
  assumes "\<And>k. json_value (Suc (Suc (Suc (Suc (Suc (Suc (Suc (Suc (Suc k))))))))) s = Some (j, [])"
    and "9 \<le> length s"
  shows "json_decode s = Some j"
proof -
  from assms(2) obtain k where "length s = 9 + k" using le_Suc_ex by blast
  then have "length s = Suc (Suc (Suc (Suc (Suc (Suc (Suc (Suc (Suc k))))))))" by simp
  then show ?thesis using assms(1) [of k] by (simp add: json_decode_def skip_ws_def)
qed

lemma request_length: "9 \<le> length (request_json p m t)"
  by (simp add: request_json_def)

lemma request_value:
  assumes "\<forall>c \<in> set p. \<not> needs_escape c" and "is_json_number m" and "is_json_number t"
  shows "json_value (Suc (Suc (Suc (Suc (Suc (Suc (Suc (Suc (Suc k))))))))) (request_json p m t)
           = Some (request_structure p m t, [])"
  using assms
  by (simp add: request_json_def request_structure_def Let_def skip_ws_def is_ws_def
        is_digit_def number_char_def starts_number_simps json_string_clean skip_ws_number
        starts_number_append json_number_append is_control_def simple_escape_def)

lemma request_decodes:
  assumes "\<forall>c \<in> set p. \<not> needs_escape c" and "is_json_number m" and "is_json_number t"
  shows "json_decode (request_json p m t) = Some (request_structure p m t)"
  using request_value [OF assms] request_length by (rule decode_from_value)

lemma request_content: "first_message_content (request_structure p m t) = Some p"
  by (simp add: first_message_content_def request_structure_def json_member_def json_element_def)

text \<open>The same for the two prompts that are not plain text.\<close>

lemma injected_value:
  assumes "is_json_number m" and "is_json_number t"
  shows "json_value (Suc (Suc (Suc (Suc (Suc (Suc (Suc (Suc (Suc k)))))))))
           (request_json injected_prompt m t)
       = Some (JObject
           [(''messages'',
               JArray [JObject [(''role'', JString ''user''), (''content'', JString ''a''),
                                (''b'', JString ''c'')]]),
            (''model'', JString ''TinyLlama-1.1B-MLC''),
            (''max_tokens'', JNumber m),
            (''temperature'', JNumber t),
            (''stream'', JBool True)], [])"
  using assms
  by (simp add: injected_prompt_def request_json_def Let_def skip_ws_def is_ws_def
        is_digit_def number_char_def starts_number_simps skip_ws_number
        starts_number_append json_number_append is_control_def simple_escape_def)

lemma backslash_value:
  assumes "is_json_number m" and "is_json_number t"
  shows "json_value (Suc (Suc (Suc (Suc (Suc (Suc (Suc (Suc (Suc k)))))))))
           (request_json backslash_prompt m t)
       = Some (request_structure [CHR ''a'', CHR 0x08] m t, [])"
  using assms
  by (simp add: backslash_prompt_def request_json_def request_structure_def Let_def skip_ws_def
        is_ws_def is_digit_def number_char_def starts_number_simps skip_ws_number
        starts_number_append json_number_append is_control_def simple_escape_def)

lemma quoted_value:
  assumes "is_json_number m" and "is_json_number t"
  shows "json_value (Suc (Suc (Suc (Suc (Suc (Suc (Suc (Suc (Suc k)))))))))
           (request_json quoted_delta m t) = None"
  using assms
  by (simp add: quoted_delta_def request_json_def Let_def skip_ws_def is_ws_def
        is_digit_def number_char_def starts_number_simps skip_ws_number
        starts_number_append json_number_append is_control_def simple_escape_def)

lemma nan_value:
  assumes "\<forall>c \<in> set p. \<not> needs_escape c" and "is_json_number m"
  shows "json_value (Suc (Suc (Suc (Suc (Suc (Suc (Suc (Suc (Suc k)))))))))
           (request_json p m ''nan'') = None"
  using assms
  by (simp add: request_json_def Let_def skip_ws_def is_ws_def
        is_digit_def number_char_def starts_number_simps json_string_clean skip_ws_number
        starts_number_append json_number_append is_control_def simple_escape_def)

lemma not_decoded_from_value:
  assumes "\<And>k. json_value (Suc (Suc (Suc (Suc (Suc (Suc (Suc (Suc (Suc k))))))))) s = None"
    and "9 \<le> length s"
  shows "json_decode s = None"
proof -
  from assms(2) obtain k where "length s = 9 + k" using le_Suc_ex by blast
  then have "length s = Suc (Suc (Suc (Suc (Suc (Suc (Suc (Suc (Suc k))))))))" by simp
  then show ?thesis using assms(1) [of k] by (simp add: json_decode_def)
qed

text \<open>
  Why the temperature matters: \<open>std::to_string\<close> writes a float that is not a number as
  \<open>nan\<close>, and a request with that text is not a JSON document, whatever the prompt.
\<close>

lemma nan_temperature_not_json:
  assumes "\<forall>c \<in> set p. \<not> needs_escape c" and "is_json_number m"
  shows "json_decode (request_json p m ''nan'') = None"
  using nan_value [OF assms] request_length by (rule not_decoded_from_value)

lemma scripted_numbers: "is_json_number ''16''" "is_json_number ''0.700000''"
  by (simp_all add: is_json_number_def Let_def is_digit_def is_json_int_def is_json_frac_def
        is_json_exp_def)

lemma scripted_texts: "to_string_int 16 = ''16''" "request_id 5 = ''req_5''"
  by (simp_all add: request_id_def to_string_int_def digits.simps digit_char_def)

lemma generate_submits:
  "is_initialized w \<Longrightarrow>
   \<exists>rest. snd (snd (generate e w p mt t cb now))
     = Chat_Completion (request_json p (to_string_int (sint mt)) (to_string_float e t))
         (request_id now) # rest"
  by (simp add: generate_def Let_def split: call_result.splits)

text \<open>
  Claim C2 fails on prompts without control characters that hold a double quote or a
  backslash. For the prompt \<open>a","b":"c\<close> the request that \<open>generate\<close> submits decodes to a
  structure with one more member, \<open>b\<close>, and with the content \<open>a\<close>. For the prompt \<open>a\<close>,
  backslash, \<open>b\<close> it decodes to the content \<open>a\<close> followed by a backspace. For the prompt
  \<open>a"b\<close> the request is not a JSON document, with any fuel.
\<close>

theorem unescaped_prompt_changes_request:
  "\<not> list_ex is_control injected_prompt
   \<and> snd (snd (generate (stub_engine (Returns True)) host_wrapper injected_prompt 16 0x3F333333 (Some 7) 5))
       = [Chat_Completion (request_json injected_prompt ''16'' ''0.700000'') ''req_5'']
   \<and> json_decode (request_json injected_prompt ''16'' ''0.700000'')
       = Some (JObject
           [(''messages'',
               JArray [JObject [(''role'', JString ''user''), (''content'', JString ''a''),
                                (''b'', JString ''c'')]]),
            (''model'', JString ''TinyLlama-1.1B-MLC''),
            (''max_tokens'', JNumber ''16''),
            (''temperature'', JNumber ''0.700000''),
            (''stream'', JBool True)])
   \<and> Option.bind (json_decode (request_json injected_prompt ''16'' ''0.700000''))
         first_message_content = Some ''a''
   \<and> ''a'' \<noteq> injected_prompt
   \<and> \<not> list_ex is_control backslash_prompt
   \<and> Option.bind (json_decode (request_json backslash_prompt ''16'' ''0.700000''))
         first_message_content = Some [CHR ''a'', CHR 0x08]
   \<and> [CHR ''a'', CHR 0x08] \<noteq> backslash_prompt
   \<and> \<not> list_ex is_control quoted_delta
   \<and> json_decode (request_json quoted_delta ''16'' ''0.700000'') = None
   \<and> (\<forall>n. json_value n (request_json quoted_delta ''16'' ''0.700000'') = None)"
proof -
  have run: "snd (snd (generate (stub_engine (Returns True)) host_wrapper injected_prompt 16 0x3F333333
                (Some 7) 5))
       = [Chat_Completion (request_json injected_prompt ''16'' ''0.700000'') ''req_5'']"
    by (simp add: generate_def Let_def host_wrapper_def stub_engine_def
          scripted_to_string_float_def scripted_texts)
  have d1: "json_decode (request_json injected_prompt ''16'' ''0.700000'')
       = Some (JObject
           [(''messages'',
               JArray [JObject [(''role'', JString ''user''), (''content'', JString ''a''),
                                (''b'', JString ''c'')]]),
            (''model'', JString ''TinyLlama-1.1B-MLC''),
            (''max_tokens'', JNumber ''16''),
            (''temperature'', JNumber ''0.700000''),
            (''stream'', JBool True)])"
    using injected_value [OF scripted_numbers] request_length by (rule decode_from_value)
  have d2: "json_decode (request_json backslash_prompt ''16'' ''0.700000'')
       = Some (request_structure [CHR ''a'', CHR 0x08] ''16'' ''0.700000'')"
    using backslash_value [OF scripted_numbers] request_length by (rule decode_from_value)
  have c1: "\<not> list_ex is_control injected_prompt" "''a'' \<noteq> injected_prompt"
    by (simp_all add: injected_prompt_def is_control_def)
  have c2: "\<not> list_ex is_control backslash_prompt" "[CHR ''a'', CHR 0x08] \<noteq> backslash_prompt"
    by (simp_all add: backslash_prompt_def is_control_def)
  have m1: "Option.bind (json_decode (request_json injected_prompt ''16'' ''0.700000''))
         first_message_content = Some ''a''"
    unfolding d1 by (simp add: first_message_content_def json_member_def json_element_def)
  have m2: "Option.bind (json_decode (request_json backslash_prompt ''16'' ''0.700000''))
         first_message_content = Some [CHR ''a'', CHR 0x08]"
    unfolding d2 by (simp add: request_content)
  have c3: "\<not> list_ex is_control quoted_delta"
    by (simp add: quoted_delta_def is_control_def)
  have d3: "json_decode (request_json quoted_delta ''16'' ''0.700000'') = None"
    using quoted_value [OF scripted_numbers] request_length by (rule not_decoded_from_value)
  have d4: "\<forall>n. json_value n (request_json quoted_delta ''16'' ''0.700000'') = None"
    using rejected_with_any_fuel [OF quoted_value [OF scripted_numbers]] by blast
  from c1 run d1 m1 c2 m2 c3 d3 d4 show ?thesis by (intro conjI)
qed

text \<open>
  Claim C2, amended. The prompt is put into the request as it is, without JSON escaping.
  For every prompt that holds no double quote, no backslash and no control character, and
  every temperature that \<open>std::to_string\<close> writes as a JSON number, the request that
  \<open>generate\<close> submits to \<open>chat_completion\<close> is a well-formed JSON document, and it decodes
  to the chat-request structure, whose \<open>messages[0].content\<close> is the prompt.
\<close>

theorem plain_prompt_round_trip:
  assumes "is_initialized w"
    and "\<forall>c \<in> set p. \<not> needs_escape c"
    and "is_json_number (to_string_float e t)"
  shows "\<exists>req rid rest.
           snd (snd (generate e w p mt t cb now)) = Chat_Completion req rid # rest
           \<and> req = request_json p (to_string_int (sint mt)) (to_string_float e t)
           \<and> json_decode req
               = Some (request_structure p (to_string_int (sint mt)) (to_string_float e t))
           \<and> first_message_content
                 (request_structure p (to_string_int (sint mt)) (to_string_float e t))
               = Some p"
proof -
  from generate_submits [OF assms(1)] obtain rest where
    "snd (snd (generate e w p mt t cb now))
       = Chat_Completion (request_json p (to_string_int (sint mt)) (to_string_float e t))
           (request_id now) # rest"
    by blast
  moreover have "json_decode (request_json p (to_string_int (sint mt)) (to_string_float e t))
      = Some (request_structure p (to_string_int (sint mt)) (to_string_float e t))"
    using assms(2) to_string_int_number assms(3) by (rule request_decodes)
  ultimately show ?thesis using request_content by blast
qed

text \<open>Claim C2, amended, on the prompt \<open>hello\<close>.\<close>

theorem plain_prompt_round_trip_witness:
  "is_initialized host_wrapper
   \<and> list_all (\<lambda>c. \<not> needs_escape c) ''hello''
   \<and> is_json_number (to_string_float (stub_engine (Returns True)) 0x3F333333)
   \<and> (\<exists>req rid rest.
         snd (snd (generate (stub_engine (Returns True)) host_wrapper ''hello'' 16 0x3F333333 (Some 7) 5))
           = Chat_Completion req rid # rest
         \<and> req = request_json ''hello'' ''16'' ''0.700000''
         \<and> json_decode req = Some (request_structure ''hello'' ''16'' ''0.700000'')
         \<and> first_message_content (request_structure ''hello'' ''16'' ''0.700000'')
             = Some ''hello'')"
proof -
  have a: "is_initialized host_wrapper" by (simp add: host_wrapper_def)
  have b: "\<forall>c \<in> set ''hello''. \<not> needs_escape c"
    by (simp add: needs_escape_def is_control_def)
  have float: "to_string_float (stub_engine (Returns True)) 0x3F333333 = ''0.700000''"
    by (simp add: stub_engine_def scripted_to_string_float_def)
  have c: "is_json_number (to_string_float (stub_engine (Returns True)) 0x3F333333)"
    unfolding float by (rule scripted_numbers)
  from plain_prompt_round_trip [OF a b c, of 16 "Some 7" 5]
  have "\<exists>req rid rest.
         snd (snd (generate (stub_engine (Returns True)) host_wrapper ''hello'' 16 0x3F333333 (Some 7) 5))
           = Chat_Completion req rid # rest
         \<and> req = request_json ''hello'' ''16'' ''0.700000''
         \<and> json_decode req = Some (request_structure ''hello'' ''16'' ''0.700000'')
         \<and> first_message_content (request_structure ''hello'' ''16'' ''0.700000'')
             = Some ''hello''"
    by (simp add: scripted_texts float)
  moreover from b have "list_all (\<lambda>c. \<not> needs_escape c) ''hello''" by (simp add: list_all_iff)
  ultimately show ?thesis using a c by blast
qed





text \<open>
  The request id is the decimal text of the clock reading: two ids are equal exactly when
  the two readings are.
\<close>

lemma digit_char_inj: "a < 10 \<Longrightarrow> b < 10 \<Longrightarrow> digit_char a = digit_char b \<Longrightarrow> a = b"
proof -
  assume "a < 10" "b < 10" "digit_char a = digit_char b"
  moreover have "distinct ''0123456789''" by simp
  ultimately show "a = b"
    unfolding digit_char_def by (simp add: nth_eq_iff_index_eq)
qed

lemma digits_inj: "digits n = digits m \<Longrightarrow> n = m"
proof (induction n arbitrary: m rule: digits.induct)
  case (1 n)
  show ?case
  proof (cases "n < 10")
    case n: True
    show ?thesis
    proof (cases "m < 10")
      case True
      with n "1.prems" show ?thesis
        by (subst (asm) digits.simps, subst (asm) (2) digits.simps) (simp add: digit_char_inj)
    next
      case False
      with n "1.prems" have "[digit_char n] = digits (m div 10) @ [digit_char (m mod 10)]"
        by (subst (asm) digits.simps, subst (asm) (2) digits.simps) simp
      then show ?thesis using digits_nonempty [of "m div 10"] by simp
    qed
  next
    case n: False
    show ?thesis
    proof (cases "m < 10")
      case True
      with n "1.prems" have "digits (n div 10) @ [digit_char (n mod 10)] = [digit_char m]"
        by (subst (asm) digits.simps, subst (asm) (2) digits.simps) simp
      then show ?thesis using digits_nonempty [of "n div 10"] by simp
    next
      case False
      with n "1.prems" have "digits (n div 10) @ [digit_char (n mod 10)]
          = digits (m div 10) @ [digit_char (m mod 10)]"
        by (subst (asm) digits.simps, subst (asm) (2) digits.simps) simp
      then have d: "digits (n div 10) = digits (m div 10)"
        and l: "digit_char (n mod 10) = digit_char (m mod 10)" by simp_all
      from "1.IH" [OF n d] have "n div 10 = m div 10" .
      moreover from l have "n mod 10 = m mod 10" by (simp add: digit_char_inj)
      ultimately show ?thesis by (metis div_mult_mod_eq)
    qed
  qed
qed

lemma digits_no_minus: "hd (digits n) \<noteq> CHR ''-''"
  using digits_all [of n] digits_nonempty [of n]
  by (cases "digits n") (auto simp: is_digit_def)

lemma to_string_int_inj: "to_string_int i = to_string_int j \<Longrightarrow> i = j"
proof -
  assume eq: "to_string_int i = to_string_int j"
  consider "i < 0" "j < 0" | "i < 0" "\<not> j < 0" | "\<not> i < 0" "j < 0" | "\<not> i < 0" "\<not> j < 0"
    by blast
  then show "i = j"
  proof cases
    case 1
    with eq have "digits (nat (- i)) = digits (nat (- j))" by (simp add: to_string_int_def)
    then have "nat (- i) = nat (- j)" by (rule digits_inj)
    with 1 show ?thesis by simp
  next
    case 2
    with eq have "CHR ''-'' # digits (nat (- i)) = digits (nat j)" by (simp add: to_string_int_def)
    then have "hd (digits (nat j)) = CHR ''-''" by (metis list.sel(1))
    with digits_no_minus show ?thesis by blast
  next
    case 3
    with eq have "digits (nat i) = CHR ''-'' # digits (nat (- j))" by (simp add: to_string_int_def)
    then have "hd (digits (nat i)) = CHR ''-''" by (metis list.sel(1))
    with digits_no_minus show ?thesis by blast
  next
    case 4
    with eq have "digits (nat i) = digits (nat j)" by (simp add: to_string_int_def)
    then have "nat i = nat j" by (rule digits_inj)
    with 4 show ?thesis by simp
  qed
qed

lemma request_id_eq_iff: "request_id a = request_id b \<longleftrightarrow> a = b"
proof
  assume "request_id a = request_id b"
  then have "to_string_int (sint a) = to_string_int (sint b)" by (simp add: request_id_def)
  then have "sint a = sint b" by (rule to_string_int_inj)
  then show "a = b" by (simp add: signed_word_eqI)
qed simp

text \<open>
  Claim C7, evaluated. Two \<open>generate\<close> calls that read the same millisecond from the
  clock submit the same request id, with different prompts.
\<close>

theorem same_millisecond_same_request_id:
  "\<exists>s1 s2.
     mlc_llm_generate (stub_engine (Returns True)) (Some 4096) (Some ''first'') 16 0x3F333333 (Some 7)
       1700000000000 ready_world = Done (0, s1)
     \<and> mlc_llm_generate (stub_engine (Returns True)) (Some 4096) (Some ''second'') 16 0x3F333333 (Some 7)
         1700000000000 s1 = Done (0, s2)
     \<and> trace s2 = trace ready_world
          @ [Chat_Completion (request_json ''first'' ''16'' ''0.700000'') ''req_1700000000000'',
             Chat_Completion (request_json ''second'' ''16'' ''0.700000'') ''req_1700000000000'']"
proof -
  have digits16: "to_string_int 16 = ''16''"
    by (simp add: to_string_int_def digits.simps digit_char_def)
  have rid: "request_id 1700000000000 = ''req_1700000000000''"
    by (simp add: request_id_def to_string_int_def digits.simps digit_char_def)
  show ?thesis
    by (simp add: mlc_llm_generate_def generate_def Let_def ready_world_heap digits16 rid
          stub_engine_def scripted_to_string_float_def)
qed

subsection \<open>The C interface\<close>



text \<open>
  Claim C5 fails on an engine that lacks one of the methods the constructor does not
  call. \<open>GetFunction\<close> gives the null \<open>PackedFunc\<close> for \<open>run_background_loop\<close>, the
  constructor stores it untested, every call it makes returns, and
  \<open>mlc_llm_create_engine\<close> returns a non-null handle to an initialized wrapper, although
  not every method is bound.
\<close>

theorem unbound_method_non_null_handle:
  "get_function unbound_engine ''run_background_loop'' = Returns Unbound
   \<and> \<not> construction_succeeds unbound_engine ''/models/tiny''
   \<and> mlc_llm_create_engine unbound_engine ''/models/tiny'' empty_world
       = Done (Some 4096,
           \<lparr>heap = [4096 \<mapsto> \<lparr>model_path = ''/models/tiny'', token_callback = None,
                              is_initialized = True\<rparr>],
            next_addr = 4097,
            trace = [Registry_Get ''mlc.json_ffi.CreateJSONFFIEngine'',
                     Create_Engine,
                     Get_Function ''init_background_engine'',
                     Get_Function ''reload'',
                     Get_Function ''chat_completion'',
                     Get_Function ''run_background_loop'',
                     Get_Function ''run_background_stream_back_loop'',
                     Get_Function ''get_last_error'',
                     Init_Background_Engine 8 0,
                     Reload (engine_config ''/models/tiny'')]\<rparr>)"
  by (simp add: unbound_engine_def stub_engine_def construction_succeeds_def
        mlc_llm_create_engine_def MLCEngineWrapper_def Let_def constructor_steps_def
        plain_step_def call_step_def empty_world_def factory_key_def)

text \<open>
  Claim C5, amended. \<open>mlc_llm_create_engine\<close> returns a non-null handle exactly when
  the factory is found, the engine is created, none of the six \<open>GetFunction\<close> lookups
  throws, and \<open>init_background_engine\<close> and \<open>reload\<close> are bound and return; that
  \<open>chat_completion\<close>, \<open>run_background_loop\<close>, \<open>run_background_stream_back_loop\<close> and
  \<open>get_last_error\<close> are bound is not tested. Behind every non-null handle it returns
  there is a live wrapper with \<open>is_initialized = true\<close>, and, when \<open>chat_completion\<close> and
  \<open>get_last_error\<close> are bound, a \<open>generate\<close> call on that handle with a non-null prompt
  never returns \<open>-1\<close>. A construction that fails because the factory is missing or a step
  throws returns null; one that reaches a call through an unbound \<open>init_background_engine\<close>
  or \<open>reload\<close> has undefined behaviour.
\<close>

theorem create_engine_handle_iff_completed:
  "((\<exists>a s'. mlc_llm_create_engine e path s = Done (Some a, s')) \<longleftrightarrow> constructor_completes e path)
   \<and> (mlc_llm_create_engine e path s = Undefined_Behaviour \<longleftrightarrow> constructor_calls_null e path)
   \<and> ((\<exists>s'. mlc_llm_create_engine e path s = Done (None, s'))
        \<longleftrightarrow> \<not> constructor_completes e path \<and> \<not> constructor_calls_null e path)
   \<and> (mlc_llm_create_engine e path s = Done (Some a, s') \<longrightarrow>
         (\<exists>w. heap s' a = Some w
            \<and> is_initialized w \<and> model_path w = path \<and> token_callback w = None)
       \<and> (get_function e ''chat_completion'' = Returns Bound
            \<and> get_function e ''get_last_error'' = Returns Bound \<longrightarrow>
              (\<exists>rc s''. mlc_llm_generate e (Some a) (Some p) mt t cb now s' = Done (rc, s'')
                 \<and> rc \<noteq> - 1)))"
proof -
  let ?w = "fst (MLCEngineWrapper e path)"
  let ?end = "snd (snd (MLCEngineWrapper e path))"
  have completed: "?end = Completed \<longleftrightarrow> constructor_completes e path"
    by (rule constructor_completed)
  have null: "?end = Null_Called \<longleftrightarrow> constructor_calls_null e path"
    by (rule constructor_null_called)
  have init: "is_initialized ?w \<longleftrightarrow> ?end = Completed"
    by (rule constructor_end(2))
  have fields: "token_callback ?w = None" "model_path ?w = path"
    by (rule constructor_fields)+
  have handle: "(\<exists>a s'. mlc_llm_create_engine e path s = Done (Some a, s'))
      \<longleftrightarrow> constructor_completes e path"
    unfolding create_engine_cases using completed null by auto
  have undefined: "mlc_llm_create_engine e path s = Undefined_Behaviour
      \<longleftrightarrow> constructor_calls_null e path"
    unfolding create_engine_cases using null by simp
  have no_handle: "(\<exists>s'. mlc_llm_create_engine e path s = Done (None, s'))
      \<longleftrightarrow> \<not> constructor_completes e path \<and> \<not> constructor_calls_null e path"
    unfolding create_engine_cases using completed null by auto
  have live: "mlc_llm_create_engine e path s = Done (Some a, s') \<longrightarrow>
         (\<exists>w. heap s' a = Some w
            \<and> is_initialized w \<and> model_path w = path \<and> token_callback w = None)
       \<and> (\<exists>rc s''. mlc_llm_generate e (Some a) (Some p) mt t cb now s' = Done (rc, s'')
                 \<and> rc \<noteq> - 1)"
    unfolding create_engine_cases using init fields
    by (auto simp: mlc_llm_generate_def generate_def Let_def
             split: if_splits call_result.splits)
  from handle undefined no_handle live show ?thesis by blast
qed

text \<open>Claim C5, amended, on the scripted engine and the empty world.\<close>

theorem create_engine_handle_iff_completed_witness:
  "constructor_completes (stub_engine (Returns True)) ''/models/tiny''
   \<and> mlc_llm_create_engine (stub_engine (Returns True)) ''/models/tiny'' empty_world
       = Done (Some 4096, ready_world)
   \<and> get_function (stub_engine (Returns True)) ''chat_completion'' = Returns Bound
   \<and> get_function (stub_engine (Returns True)) ''get_last_error'' = Returns Bound
   \<and> (\<exists>w. heap ready_world 4096 = Some w
          \<and> is_initialized w \<and> model_path w = ''/models/tiny'' \<and> token_callback w = None)
   \<and> (\<exists>rc s''. mlc_llm_generate (stub_engine (Returns True)) (Some 4096) (Some ''hi'') 16
                   0x3F333333 (Some 7) 5 ready_world = Done (rc, s'')
          \<and> rc \<noteq> - 1)"
proof -
  have ok: "constructor_completes (stub_engine (Returns True)) ''/models/tiny''"
    by (simp add: constructor_completes_def stub_engine_def)
  have bound: "get_function (stub_engine (Returns True)) ''chat_completion'' = Returns Bound"
    "get_function (stub_engine (Returns True)) ''get_last_error'' = Returns Bound"
    by (simp_all add: stub_engine_def)
  from create_engine_handle_iff_completed
         [of "stub_engine (Returns True)" "''/models/tiny''" empty_world 4096 ready_world
            "''hi''" 16 "0x3F333333" "Some 7" 5]
    ready_world_handle bound
  have "(\<exists>w. heap ready_world 4096 = Some w
          \<and> is_initialized w \<and> model_path w = ''/models/tiny'' \<and> token_callback w = None)
   \<and> (\<exists>rc s''. mlc_llm_generate (stub_engine (Returns True)) (Some 4096) (Some ''hi'') 16
                   0x3F333333 (Some 7) 5 ready_world = Done (rc, s'')
          \<and> rc \<noteq> - 1)"
    by simp
  with ok ready_world_handle bound show ?thesis by blast
qed

text \<open>
  Claim C8. \<open>mlc_llm_destroy_engine\<close> with the null handle returns with the world as it
  was: the heap of wrappers is unchanged (nothing is destroyed) and the trace is unchanged
  (no call to the engine, no call to a host callback).
\<close>

theorem destroy_null_is_noop: "mlc_llm_destroy_engine e None s = Done s"
  by (simp add: mlc_llm_destroy_engine_def)

end
